theory Spec2Isabelle
  imports Main "HOL-Library.Word"
begin

unbundle bit_operations_syntax

section \<open>Enumerations of the protocol API\<close>

text \<open>The display radix and the link kinds of \<^verbatim>\<open>api.py\<close>.\<close>

datatype Radix = BIN | OCT | DEC | HEX | UNSIGNED | STRING | TIME | REAL

datatype LinkType = PARENT_CHILD | RELATED | CAUSE_EFFECT | CUSTOM

type_synonym byte = "8 word"

section \<open>Varint writer\<close>

text \<open>
  \<^verbatim>\<open>PerfettoTrace._write_varint\<close>: the loop runs while \<^verbatim>\<open>value >= 0x80\<close>, writes
  \<^verbatim>\<open>(value & 0x7F) | 0x80\<close> and shifts right by seven; the last byte is
  \<^verbatim>\<open>value & 0x7F\<close>. The value is a Python integer, so the model takes an \<open>int\<close>:
  a negative value does not enter the loop and is written as one byte. The function
  returns the bytes appended to the file, in order.
\<close>

function write_varint :: "int \<Rightarrow> byte list" where
  "write_varint v =
     (if v \<ge> 0x80
      then word_of_int ((v AND 0x7F) OR 0x80) # write_varint (drop_bit 7 v)
      else [word_of_int (v AND 0x7F)])"
  by pat_completeness auto
termination
  by (relation "measure nat") (auto simp: drop_bit_eq_div)

text \<open>
  The reader used to state the round trip: the standard unsigned varint decoding. A byte
  with the high bit set contributes its low seven bits and continues; the first byte with
  the high bit clear ends the number. The result is the value and the unread bytes, or
  \<open>None\<close> when the input ends inside a number.
\<close>

fun decode_uvarint :: "byte list \<Rightarrow> (int \<times> byte list) option" where
  "decode_uvarint [] = None"
| "decode_uvarint (b # bs) =
     (if bit b 7
      then (case decode_uvarint bs of
              None \<Rightarrow> None
            | Some (v, rest) \<Rightarrow> Some (uint (b AND 0x7F) + 128 * v, rest))
      else Some (uint b, bs))"

section \<open>Attribute names and bit-vector rendering\<close>

text \<open>
  \<^verbatim>\<open>PerfettoTransaction._format_name\<close>: the suffix comes from a dictionary with six keys;
  \<^verbatim>\<open>.get(radix, "")\<close> gives the empty suffix for the two radices that are not keys.
\<close>

definition radix_suffixes :: "Radix \<rightharpoonup> string" where
  "radix_suffixes =
     [BIN \<mapsto> ''[bin]'', OCT \<mapsto> ''[oct]'', DEC \<mapsto> ''[dec]'', HEX \<mapsto> ''[hex]'',
      UNSIGNED \<mapsto> ''[u]'', TIME \<mapsto> ''[time]'']"

definition format_name :: "string \<Rightarrow> Radix \<Rightarrow> string" where
  "format_name name radix =
     (let suffix = (case radix_suffixes radix of Some s \<Rightarrow> s | None \<Rightarrow> '''')
      in name @ suffix)"

text \<open>
  The Python built-ins used by \<^verbatim>\<open>_bits_to_string\<close>. \<^verbatim>\<open>bytes.hex()\<close> writes two lowercase
  digits per byte, high nibble first. \<^verbatim>\<open>format(byte, '08b')\<close> writes the binary digits of
  the number, most significant first, padded with zeros on the left to width eight.
  \<^verbatim>\<open>int.from_bytes(bits, 'little')\<close> reads the first byte as the least significant.
  \<^verbatim>\<open>oct(value)\<close> of a number that is not negative is \<^verbatim>\<open>0o\<close> and its octal digits.
\<close>

definition hexdigits :: string where
  "hexdigits = ''0123456789abcdef''"

definition byte_hex :: "byte \<Rightarrow> string" where
  "byte_hex b = [hexdigits ! unat (drop_bit 4 b), hexdigits ! unat (b AND 0x0F)]"

definition bytes_hex :: "byte list \<Rightarrow> string" where
  "bytes_hex bs = concat (map byte_hex bs)"

function bin_digits :: "nat \<Rightarrow> string" where
  "bin_digits n =
     (if n < 2 then [hexdigits ! n] else bin_digits (n div 2) @ [hexdigits ! (n mod 2)])"
  by pat_completeness auto
termination
  by (relation "measure id") auto

definition format_08b :: "byte \<Rightarrow> string" where
  "format_08b b =
     (let ds = bin_digits (unat b) in replicate (8 - length ds) (CHR ''0'') @ ds)"

function oct_digits :: "nat \<Rightarrow> string" where
  "oct_digits n =
     (if n < 8 then [hexdigits ! n] else oct_digits (n div 8) @ [hexdigits ! (n mod 8)])"
  by pat_completeness auto
termination
  by (relation "measure id") auto

definition oct :: "nat \<Rightarrow> string" where
  "oct n = ''0o'' @ oct_digits n"

fun from_bytes_little :: "byte list \<Rightarrow> nat" where
  "from_bytes_little [] = 0"
| "from_bytes_little (b # bs) = unat b + 256 * from_bytes_little bs"

text \<open>
  The slice \<^verbatim>\<open>xs[:k]\<close>: a negative \<open>k\<close> counts from the end, and a bound outside the
  list is clipped.
\<close>

definition py_slice_to :: "'a list \<Rightarrow> int \<Rightarrow> 'a list" where
  "py_slice_to xs k =
     (if k < 0 then take (nat (int (length xs) + k)) xs else take (nat k) xs)"

text \<open>
  \<^verbatim>\<open>PerfettoTransaction._bits_to_string\<close>, branch by branch. The loop of the binary branch
  appends the eight digits of each byte to \<^verbatim>\<open>result\<close>, over the reversed bytes.
\<close>

definition bits_to_string :: "byte list \<Rightarrow> int \<Rightarrow> Radix \<Rightarrow> string" where
  "bits_to_string bits num_bits radix =
     (if radix = HEX then ''0x'' @ bytes_hex bits
      else if radix = BIN then
        (let result = foldl (\<lambda>result byte. result @ format_08b byte) ''0b'' (rev bits)
         in py_slice_to result (2 + num_bits))
      else if radix = OCT then
        (let value = from_bytes_little bits in ''0o'' @ drop 2 (oct value))
      else ''0x'' @ bytes_hex bits)"

section \<open>Messages\<close>

text \<open>
  The protobuf messages, as the values the code assigns to their fields. The float
  attribute (\<^verbatim>\<open>add_float\<close>) is left out of this development.
\<close>

datatype anno_value = Int_value int | Uint_value int | String_value string

record DebugAnnotation =
  an_name :: string
  an_value :: anno_value

datatype event_type = TYPE_SLICE_BEGIN | TYPE_SLICE_END

record TrackEvent =
  ev_type :: event_type
  ev_track_uuid :: int
  ev_name :: "string option"
  ev_categories :: "string list"
  ev_debug_annotations :: "DebugAnnotation list"
  ev_flow_ids :: "int list"

datatype packet_data =
    Clock_snapshot "(int \<times> int) list"
  | Track_descriptor int string "int option"
  | Track_event TrackEvent

record TracePacket =
  timestamp :: int
  data :: packet_data

section \<open>Errors and field ranges\<close>

text \<open>
  The exceptions are values: \<^verbatim>\<open>RuntimeError\<close> and \<^verbatim>\<open>TypeError\<close> are raised by the code
  itself, \<^verbatim>\<open>ValueError\<close> by the message classes when a number outside the range of a
  field is assigned to it. An operation that can raise returns its outcome together with
  the heap as the call left it, since what was assigned or written before the exception
  stays.
\<close>

datatype error = RuntimeError | TypeError | ValueError

text \<open>
  Modelled from the spec: the types of the message fields, which the Perfetto schema
  declares outside these sources. The spec gives the unsigned encoding 64 bits and makes
  a negative value on it an error of the call. \<^verbatim>\<open>timestamp\<close> and \<^verbatim>\<open>uint_value\<close> are
  unsigned 64-bit fields, \<^verbatim>\<open>int_value\<close> is a signed 64-bit field. The check is modelled
  where the number assigned comes from the caller: the two timestamps of a slice and the
  values of the integer attributes. The identifier fields (\<^verbatim>\<open>uuid\<close>, \<^verbatim>\<open>parent_uuid\<close>,
  \<^verbatim>\<open>track_uuid\<close>, \<^verbatim>\<open>flow_ids\<close>) only ever receive values of the allocators, which count
  up from 1 and which the design keeps far below \<open>2^64\<close>; they carry no check here.
\<close>

definition uint64_ok :: "int \<Rightarrow> bool" where
  "uint64_ok v \<longleftrightarrow> 0 \<le> v \<and> v < 2 ^ 64"

definition int64_ok :: "int \<Rightarrow> bool" where
  "int64_ok v \<longleftrightarrow> - (2 ^ 63) \<le> v \<and> v < 2 ^ 63"

section \<open>Objects and the heap\<close>

text \<open>
  Transactions, streams and traces are mutable objects that refer to each other, and
  \<^verbatim>\<open>add_link\<close> and \<^verbatim>\<open>PerfettoStream.close\<close> change objects reached through such
  references. The model keeps one store per class, from references to object states, and
  a counter for the next fresh reference. The file of a trace is the list of the packets
  handed to \<^verbatim>\<open>_write_packet\<close>, in order. Closing the trace and releasing the file are not
  embedded: every operation below runs on a trace whose file is open.
\<close>

type_synonym ref = nat

record PerfettoTransaction =
  txn_id :: int
  txn_stream :: ref
  txn_name :: string
  txn_type_name :: "string option"
  txn_start_time :: int
  txn_end_time :: int
  txn_is_open :: bool
  txn_parent :: "ref option"
  txn_attributes :: "DebugAnnotation list"
  txn_flow_ids :: "int list"
  txn_track_uuid :: int

record PerfettoStream =
  stream_trace :: ref
  stream_track_uuid :: int
  stream_name :: string
  stream_scope :: "string option"
  stream_type_name :: "string option"
  stream_is_open :: bool
  stream_transactions :: "ref list"

record PerfettoTrace =
  trace_filename :: string
  trace_name :: string
  trace_time_units :: string
  trace_file :: "TracePacket list"
  trace_streams :: "ref list"
  next_track_uuid :: int
  next_transaction_id :: int
  next_flow_id :: int
  sequence_id :: int
  clock_id :: int

record heap =
  traces :: "ref \<Rightarrow> PerfettoTrace"
  streams :: "ref \<Rightarrow> PerfettoStream"
  transactions :: "ref \<Rightarrow> PerfettoTransaction"
  next_ref :: ref

definition upd_trace :: "ref \<Rightarrow> (PerfettoTrace \<Rightarrow> PerfettoTrace) \<Rightarrow> heap \<Rightarrow> heap" where
  "upd_trace r f h = h\<lparr>traces := (traces h)(r := f (traces h r))\<rparr>"

definition upd_stream :: "ref \<Rightarrow> (PerfettoStream \<Rightarrow> PerfettoStream) \<Rightarrow> heap \<Rightarrow> heap" where
  "upd_stream r f h = h\<lparr>streams := (streams h)(r := f (streams h r))\<rparr>"

definition upd_txn ::
  "ref \<Rightarrow> (PerfettoTransaction \<Rightarrow> PerfettoTransaction) \<Rightarrow> heap \<Rightarrow> heap" where
  "upd_txn r f h = h\<lparr>transactions := (transactions h)(r := f (transactions h r))\<rparr>"

text \<open>A method of the trace that returns a value, run on the trace object at \<open>r\<close>.\<close>

definition on_trace :: "ref \<Rightarrow> (PerfettoTrace \<Rightarrow> 'a \<times> PerfettoTrace) \<Rightarrow> heap \<Rightarrow> 'a \<times> heap" where
  "on_trace r m h = (let (x, tr) = m (traces h r) in (x, h\<lparr>traces := (traces h)(r := tr)\<rparr>))"

text \<open>The trace a transaction writes to: \<^verbatim>\<open>self._stream._trace\<close>.\<close>

definition trace_of :: "heap \<Rightarrow> ref \<Rightarrow> ref" where
  "trace_of h t = stream_trace (streams h (txn_stream (transactions h t)))"

text \<open>The heap before any object is made; its cells hold blank objects.\<close>

definition blank_trace :: PerfettoTrace where
  "blank_trace =
     \<lparr>trace_filename = [], trace_name = [], trace_time_units = [], trace_file = [],
      trace_streams = [], next_track_uuid = 0, next_transaction_id = 0, next_flow_id = 0,
      sequence_id = 0, clock_id = 0\<rparr>"

definition blank_stream :: PerfettoStream where
  "blank_stream =
     \<lparr>stream_trace = 0, stream_track_uuid = 0, stream_name = [], stream_scope = None,
      stream_type_name = None, stream_is_open = False, stream_transactions = []\<rparr>"

definition blank_txn :: PerfettoTransaction where
  "blank_txn =
     \<lparr>txn_id = 0, txn_stream = 0, txn_name = [], txn_type_name = None, txn_start_time = 0,
      txn_end_time = 0, txn_is_open = False, txn_parent = None, txn_attributes = [],
      txn_flow_ids = [], txn_track_uuid = 0\<rparr>"

definition empty_heap :: heap where
  "empty_heap =
     \<lparr>traces = (\<lambda>_. blank_trace), streams = (\<lambda>_. blank_stream),
      transactions = (\<lambda>_. blank_txn), next_ref = 0\<rparr>"

section \<open>Identifier allocation\<close>

text \<open>
  \<^verbatim>\<open>_allocate_track_uuid\<close>, \<^verbatim>\<open>_allocate_transaction_id\<close> and \<^verbatim>\<open>_allocate_flow_id\<close>: each
  returns the current value of its counter and adds one to it.
\<close>

definition allocate_track_uuid :: "PerfettoTrace \<Rightarrow> int \<times> PerfettoTrace" where
  "allocate_track_uuid self =
     (let uuid = next_track_uuid self
      in (uuid, self\<lparr>next_track_uuid := next_track_uuid self + 1\<rparr>))"

definition allocate_transaction_id :: "PerfettoTrace \<Rightarrow> int \<times> PerfettoTrace" where
  "allocate_transaction_id self =
     (let txn_id = next_transaction_id self
      in (txn_id, self\<lparr>next_transaction_id := next_transaction_id self + 1\<rparr>))"

definition allocate_flow_id :: "PerfettoTrace \<Rightarrow> int \<times> PerfettoTrace" where
  "allocate_flow_id self =
     (let flow_id = next_flow_id self
      in (flow_id, self\<lparr>next_flow_id := next_flow_id self + 1\<rparr>))"

text \<open>
  A sequence of allocator calls on one trace, in any interleaving, with the value each call
  returned. It is the means to state what a series of calls returns.
\<close>

datatype allocator = Track | Transaction | Flow

fun allocate :: "allocator \<Rightarrow> PerfettoTrace \<Rightarrow> int \<times> PerfettoTrace" where
  "allocate Track = allocate_track_uuid"
| "allocate Transaction = allocate_transaction_id"
| "allocate Flow = allocate_flow_id"

fun run_allocators :: "allocator list \<Rightarrow> PerfettoTrace \<Rightarrow> (allocator \<times> int) list" where
  "run_allocators [] self = []"
| "run_allocators (a # as) self =
     (let (v, self') = allocate a self in (a, v) # run_allocators as self')"

definition returned :: "allocator \<Rightarrow> (allocator \<times> int) list \<Rightarrow> int list" where
  "returned a rs = map snd (filter (\<lambda>r. fst r = a) rs)"

section \<open>Packets\<close>

text \<open>
  \<^verbatim>\<open>_write_packet\<close> appends one length-delimited record to the file. In the heap the file
  is the list of packets written; \<open>file_bytes\<close> gives its bytes for a serialiser \<open>ser\<close>,
  which stands for \<^verbatim>\<open>SerializeToString\<close> of the protobuf library.
\<close>

definition write_packet :: "TracePacket \<Rightarrow> PerfettoTrace \<Rightarrow> PerfettoTrace" where
  "write_packet packet self = self\<lparr>trace_file := trace_file self @ [packet]\<rparr>"

definition packet_bytes :: "(TracePacket \<Rightarrow> byte list) \<Rightarrow> TracePacket \<Rightarrow> byte list" where
  "packet_bytes ser packet = (let data = ser packet in write_varint (int (length data)) @ data)"

definition file_bytes :: "(TracePacket \<Rightarrow> byte list) \<Rightarrow> TracePacket list \<Rightarrow> byte list" where
  "file_bytes ser packets = concat (map (packet_bytes ser) packets)"

text \<open>
  The packet each \<^verbatim>\<open>_emit_*\<close> method builds, and the method itself, which writes the
  packet to the trace at \<open>self\<close>. In \<^verbatim>\<open>_emit_slice_begin\<close> the category is added only when
  \<^verbatim>\<open>txn.type_name\<close> is true, that is neither \<^verbatim>\<open>None\<close> nor empty.
\<close>

definition clock_snapshot_packet :: "PerfettoTrace \<Rightarrow> TracePacket" where
  "clock_snapshot_packet self = \<lparr>timestamp = 0, data = Clock_snapshot [(clock_id self, 0)]\<rparr>"

definition track_descriptor_packet :: "PerfettoStream \<Rightarrow> TracePacket" where
  "track_descriptor_packet stream =
     \<lparr>timestamp = 0, data = Track_descriptor (stream_track_uuid stream) (stream_name stream) None\<rparr>"

definition child_track_descriptor_packet :: "heap \<Rightarrow> PerfettoTransaction \<Rightarrow> TracePacket" where
  "child_track_descriptor_packet h txn =
     \<lparr>timestamp = 0,
      data = Track_descriptor (txn_track_uuid txn) (txn_name txn)
               (case txn_parent txn of
                  Some p \<Rightarrow> Some (txn_track_uuid (transactions h p))
                | None \<Rightarrow> None)\<rparr>"

definition slice_begin_packet :: "PerfettoTransaction \<Rightarrow> TracePacket" where
  "slice_begin_packet txn =
     \<lparr>timestamp = txn_start_time txn,
      data = Track_event
        \<lparr>ev_type = TYPE_SLICE_BEGIN,
         ev_track_uuid = txn_track_uuid txn,
         ev_name = Some (txn_name txn),
         ev_categories =
           (case txn_type_name txn of
              Some ty \<Rightarrow> if ty \<noteq> [] then [ty] else []
            | None \<Rightarrow> []),
         ev_debug_annotations = txn_attributes txn,
         ev_flow_ids = txn_flow_ids txn\<rparr>\<rparr>"

definition slice_end_packet :: "PerfettoTransaction \<Rightarrow> TracePacket" where
  "slice_end_packet txn =
     \<lparr>timestamp = txn_end_time txn,
      data = Track_event
        \<lparr>ev_type = TYPE_SLICE_END,
         ev_track_uuid = txn_track_uuid txn,
         ev_name = None,
         ev_categories = [],
         ev_debug_annotations = [],
         ev_flow_ids = txn_flow_ids txn\<rparr>\<rparr>"

definition emit_clock_snapshot :: "ref \<Rightarrow> heap \<Rightarrow> heap" where
  "emit_clock_snapshot self h =
     upd_trace self (write_packet (clock_snapshot_packet (traces h self))) h"

definition emit_track_descriptor :: "ref \<Rightarrow> ref \<Rightarrow> heap \<Rightarrow> heap" where
  "emit_track_descriptor self stream h =
     upd_trace self (write_packet (track_descriptor_packet (streams h stream))) h"

definition emit_child_track_descriptor :: "ref \<Rightarrow> ref \<Rightarrow> heap \<Rightarrow> heap" where
  "emit_child_track_descriptor self txn h =
     upd_trace self (write_packet (child_track_descriptor_packet h (transactions h txn))) h"

text \<open>
  In \<^verbatim>\<open>_emit_slice_begin\<close> and \<^verbatim>\<open>_emit_slice_end\<close> the first assignment is
  \<^verbatim>\<open>packet.timestamp = txn.start_time\<close>, respectively \<^verbatim>\<open>txn.end_time\<close>. When the time is
  outside the unsigned 64-bit range the assignment raises, before anything is written.
\<close>

definition emit_slice_begin :: "ref \<Rightarrow> ref \<Rightarrow> heap \<Rightarrow> (error + unit) \<times> heap" where
  "emit_slice_begin self txn h =
     (if \<not> uint64_ok (txn_start_time (transactions h txn)) then (Inl ValueError, h)
      else (Inr (), upd_trace self (write_packet (slice_begin_packet (transactions h txn))) h))"

definition emit_slice_end :: "ref \<Rightarrow> ref \<Rightarrow> heap \<Rightarrow> (error + unit) \<times> heap" where
  "emit_slice_end self txn h =
     (if \<not> uint64_ok (txn_end_time (transactions h txn)) then (Inl ValueError, h)
      else (Inr (), upd_trace self (write_packet (slice_end_packet (transactions h txn))) h))"

section \<open>Transactions\<close>

text \<open>
  \<^verbatim>\<open>PerfettoTransaction.__init__\<close>. The new object takes the next fresh reference. The
  attribute \<^verbatim>\<open>_track_uuid\<close> is assigned last, in both branches; the cell holds 0 until then
  and nothing reads it before.
\<close>

definition transaction_init ::
  "int \<Rightarrow> ref \<Rightarrow> string \<Rightarrow> int \<Rightarrow> string option \<Rightarrow> ref option \<Rightarrow> heap \<Rightarrow> ref \<times> heap" where
  "transaction_init tid stream name start_time type_name parent h =
     (let self = next_ref h;
          h1 = h\<lparr>transactions := (transactions h)(self :=
                  \<lparr>txn_id = tid, txn_stream = stream, txn_name = name,
                   txn_type_name = type_name, txn_start_time = start_time, txn_end_time = 0,
                   txn_is_open = True, txn_parent = parent, txn_attributes = [],
                   txn_flow_ids = [], txn_track_uuid = 0\<rparr>),
                 next_ref := Suc self\<rparr>
      in case parent of
           Some p \<Rightarrow>
             (let (uuid, h2) = on_trace (trace_of h1 self) allocate_track_uuid h1;
                  h3 = upd_txn self (\<lambda>t. t\<lparr>txn_track_uuid := uuid\<rparr>) h2
              in (self, emit_child_track_descriptor (trace_of h3 self) self h3))
         | None \<Rightarrow>
             (self, upd_txn self (\<lambda>t. t\<lparr>txn_track_uuid := stream_track_uuid (streams h1 stream)\<rparr>) h1))"

definition is_open :: "heap \<Rightarrow> ref \<Rightarrow> bool" where
  "is_open h self = txn_is_open (transactions h self)"

definition is_closed :: "heap \<Rightarrow> ref \<Rightarrow> bool" where
  "is_closed h self = (\<not> txn_is_open (transactions h self) \<and> txn_end_time (transactions h self) > 0)"

text \<open>
  \<^verbatim>\<open>PerfettoTransaction.close\<close>. The end time and the flag are assigned before the two
  packets are emitted, so they stay assigned when an emission raises; an exception of the
  slice-begin leaves the slice-end unwritten.
\<close>

definition transaction_close :: "ref \<Rightarrow> int \<Rightarrow> heap \<Rightarrow> (error + unit) \<times> heap" where
  "transaction_close self end_time h =
     (if \<not> txn_is_open (transactions h self) then (Inr (), h)
      else
        (let h1 = upd_txn self (\<lambda>t. t\<lparr>txn_end_time := end_time\<rparr>) h;
             h2 = upd_txn self (\<lambda>t. t\<lparr>txn_is_open := False\<rparr>) h1
         in case emit_slice_begin (trace_of h2 self) self h2 of
              (Inl e, h3) \<Rightarrow> (Inl e, h3)
            | (Inr _, h3) \<Rightarrow> emit_slice_end (trace_of h3 self) self h3))"

text \<open>
  The attribute methods; each appends one annotation. \<^verbatim>\<open>add_int\<close> and \<^verbatim>\<open>add_uint\<close> assign
  the value to \<^verbatim>\<open>int_value\<close> and \<^verbatim>\<open>uint_value\<close> before they append, so a value outside the
  range of the field raises and appends nothing.
\<close>

definition add_attr :: "ref \<Rightarrow> DebugAnnotation \<Rightarrow> heap \<Rightarrow> heap" where
  "add_attr self attr h = upd_txn self (\<lambda>t. t\<lparr>txn_attributes := txn_attributes t @ [attr]\<rparr>) h"

definition add_int ::
  "ref \<Rightarrow> string \<Rightarrow> int \<Rightarrow> Radix \<Rightarrow> heap \<Rightarrow> (error + unit) \<times> heap" where
  "add_int self name v radix h =
     (if \<not> int64_ok v then (Inl ValueError, h)
      else (Inr (),
            add_attr self \<lparr>an_name = format_name name radix, an_value = Int_value v\<rparr> h))"

definition add_uint ::
  "ref \<Rightarrow> string \<Rightarrow> int \<Rightarrow> Radix \<Rightarrow> heap \<Rightarrow> (error + unit) \<times> heap" where
  "add_uint self name v radix h =
     (if \<not> uint64_ok v then (Inl ValueError, h)
      else (Inr (),
            add_attr self \<lparr>an_name = format_name name radix, an_value = Uint_value v\<rparr> h))"

definition add_string :: "ref \<Rightarrow> string \<Rightarrow> string \<Rightarrow> heap \<Rightarrow> heap" where
  "add_string self name v h = add_attr self \<lparr>an_name = name, an_value = String_value v\<rparr> h"

definition add_time :: "ref \<Rightarrow> string \<Rightarrow> int \<Rightarrow> heap \<Rightarrow> (error + unit) \<times> heap" where
  "add_time self name v h = add_uint self name v TIME h"

definition add_bits :: "ref \<Rightarrow> string \<Rightarrow> byte list \<Rightarrow> int \<Rightarrow> Radix \<Rightarrow> heap \<Rightarrow> heap" where
  "add_bits self name bits num_bits radix h =
     add_attr self
       \<lparr>an_name = format_name name radix,
        an_value = String_value (bits_to_string bits num_bits radix)\<rparr> h"

definition add_blob :: "ref \<Rightarrow> string \<Rightarrow> byte list \<Rightarrow> heap \<Rightarrow> heap" where
  "add_blob self name bytes h =
     add_attr self \<lparr>an_name = name, an_value = String_value (bytes_hex bytes)\<rparr> h"

text \<open>
  Arguments. An argument typed \<^verbatim>\<open>Optional[ITransaction]\<close> is \<^verbatim>\<open>None\<close>, a
  \<^verbatim>\<open>PerfettoTransaction\<close>, or an object of another class, of which only its truth value
  matters. A \<^verbatim>\<open>PerfettoTransaction\<close> is always true, since the class defines neither
  \<^verbatim>\<open>__bool__\<close> nor \<^verbatim>\<open>__len__\<close>.
\<close>

datatype py_object = PyNone | PyPerfettoTransaction ref | PyOther bool

fun truthy :: "py_object \<Rightarrow> bool" where
  "truthy PyNone = False"
| "truthy (PyPerfettoTransaction _) = True"
| "truthy (PyOther b) = b"

text \<open>\<^verbatim>\<open>PerfettoTransaction.add_link\<close>.\<close>

definition add_link ::
  "ref \<Rightarrow> py_object \<Rightarrow> LinkType \<Rightarrow> string option \<Rightarrow> heap \<Rightarrow> (error + unit) \<times> heap" where
  "add_link self target link_type relation_name h =
     (case target of
        PyPerfettoTransaction tgt \<Rightarrow>
          (let (flow_id, h1) = on_trace (trace_of h self) allocate_flow_id h;
               h2 = upd_txn self (\<lambda>t. t\<lparr>txn_flow_ids := txn_flow_ids t @ [flow_id]\<rparr>) h1;
               h3 = upd_txn tgt (\<lambda>t. t\<lparr>txn_flow_ids := txn_flow_ids t @ [flow_id]\<rparr>) h2
           in (Inr (), h3))
      | _ \<Rightarrow> (Inl TypeError, h))"

section \<open>Streams\<close>

text \<open>\<^verbatim>\<open>PerfettoStream.__init__\<close>, \<^verbatim>\<open>close\<close> and \<^verbatim>\<open>begin_transaction\<close>.\<close>

definition stream_init ::
  "ref \<Rightarrow> int \<Rightarrow> string \<Rightarrow> string option \<Rightarrow> string option \<Rightarrow> heap \<Rightarrow> ref \<times> heap" where
  "stream_init trace track_uuid name scope type_name h =
     (let self = next_ref h;
          h1 = h\<lparr>streams := (streams h)(self :=
                  \<lparr>stream_trace = trace, stream_track_uuid = track_uuid, stream_name = name,
                   stream_scope = scope, stream_type_name = type_name, stream_is_open = True,
                   stream_transactions = []\<rparr>),
                 next_ref := Suc self\<rparr>
      in (self, emit_track_descriptor (stream_trace (streams h1 self)) self h1))"

text \<open>
  The loop of \<^verbatim>\<open>close\<close> over the transactions of the stream. An exception of
  \<^verbatim>\<open>txn.close\<close> leaves the loop and the method: the transactions after it are not visited
  and the flag of the stream is not cleared.
\<close>

fun close_open_transactions :: "ref list \<Rightarrow> heap \<Rightarrow> (error + unit) \<times> heap" where
  "close_open_transactions [] h = (Inr (), h)"
| "close_open_transactions (txn # txns) h =
     (if is_open h txn
      then (case transaction_close txn (txn_start_time (transactions h txn)) h of
              (Inl e, h') \<Rightarrow> (Inl e, h')
            | (Inr _, h') \<Rightarrow> close_open_transactions txns h')
      else close_open_transactions txns h)"

definition stream_close :: "ref \<Rightarrow> heap \<Rightarrow> (error + unit) \<times> heap" where
  "stream_close self h =
     (if \<not> stream_is_open (streams h self) then (Inr (), h)
      else
        (case close_open_transactions (stream_transactions (streams h self)) h of
           (Inl e, h1) \<Rightarrow> (Inl e, h1)
         | (Inr _, h1) \<Rightarrow> (Inr (), upd_stream self (\<lambda>s. s\<lparr>stream_is_open := False\<rparr>) h1)))"

definition begin_transaction ::
  "ref \<Rightarrow> string \<Rightarrow> int \<Rightarrow> string option \<Rightarrow> py_object \<Rightarrow> heap \<Rightarrow> (error + ref) \<times> heap" where
  "begin_transaction self name start_time type_name parent h =
     (if \<not> stream_is_open (streams h self) then (Inl RuntimeError, h)
      else
        (let (tid, h1) = on_trace (stream_trace (streams h self)) allocate_transaction_id h
         in case (if truthy parent
                  then (case parent of
                          PyPerfettoTransaction p \<Rightarrow> Inr (Some p)
                        | _ \<Rightarrow> Inl TypeError)
                  else Inr None) of
              Inl e \<Rightarrow> (Inl e, h1)
            | Inr parent_txn \<Rightarrow>
                (let (txn, h2) = transaction_init tid self name start_time type_name parent_txn h1;
                     h3 = upd_stream self
                            (\<lambda>s. s\<lparr>stream_transactions := stream_transactions s @ [txn]\<rparr>) h2
                 in (Inr txn, h3))))"

section \<open>Traces\<close>

text \<open>
  \<^verbatim>\<open>PerfettoTrace.__init__\<close> and \<^verbatim>\<open>create_stream\<close>. \<open>new_trace\<close> is the object after the
  assignments of the constructor, before the clock snapshot is written.
\<close>

definition new_trace :: "string \<Rightarrow> string \<Rightarrow> string \<Rightarrow> PerfettoTrace" where
  "new_trace filename name time_units =
     \<lparr>trace_filename = filename, trace_name = name, trace_time_units = time_units,
      trace_file = [], trace_streams = [], next_track_uuid = 1, next_transaction_id = 1,
      next_flow_id = 1, sequence_id = 1, clock_id = 64\<rparr>"

definition trace_init :: "string \<Rightarrow> string \<Rightarrow> string \<Rightarrow> heap \<Rightarrow> ref \<times> heap" where
  "trace_init filename name time_units h =
     (let self = next_ref h;
          h1 = h\<lparr>traces := (traces h)(self := new_trace filename name time_units),
                 next_ref := Suc self\<rparr>
      in (self, emit_clock_snapshot self h1))"

definition create_stream ::
  "ref \<Rightarrow> string \<Rightarrow> string option \<Rightarrow> string option \<Rightarrow> heap \<Rightarrow> ref \<times> heap" where
  "create_stream self name scope type_name h =
     (let (track_uuid, h1) = on_trace self allocate_track_uuid h;
          (stream, h2) = stream_init self track_uuid name scope type_name h1;
          h3 = upd_trace self (\<lambda>t. t\<lparr>trace_streams := trace_streams t @ [stream]\<rparr>) h2
      in (stream, h3))"

section \<open>Aids for stating the properties\<close>

text \<open>The counter behind each allocator.\<close>

fun counter :: "allocator \<Rightarrow> PerfettoTrace \<Rightarrow> int" where
  "counter Track = next_track_uuid"
| "counter Transaction = next_transaction_id"
| "counter Flow = next_flow_id"

text \<open>The state of a transaction after \<^verbatim>\<open>close\<close> has set its end time and cleared its flag.\<close>

definition closed_txn :: "PerfettoTransaction \<Rightarrow> int \<Rightarrow> PerfettoTransaction" where
  "closed_txn txn e = txn\<lparr>txn_end_time := e, txn_is_open := False\<rparr>"

text \<open>
  A small run of the API: one trace (reference 0), one stream \<^verbatim>\<open>bus\<close> on it (reference 1),
  one open transaction \<^verbatim>\<open>RD\<close> started at 100 (reference 2) with one attribute.
\<close>

definition example_open :: heap where
  "example_open =
     (let (tr, h) = trace_init ''t.trace'' ''S'' ''1ns'' empty_heap;
          (s, h) = create_stream tr ''bus'' None None h;
          (r, h) = begin_transaction s ''RD'' 100 None PyNone h
      in snd (add_uint 2 ''addr'' 16 HEX h))"

text \<open>The character of one binary digit.\<close>

definition bit_char :: "bool \<Rightarrow> char" where
  "bit_char b = (if b then CHR ''1'' else CHR ''0'')"

text \<open>
  Two open root transactions \<^verbatim>\<open>A\<close> (reference 2) and \<^verbatim>\<open>B\<close> (reference 3) on one stream
  (reference 1) of one trace (reference 0).
\<close>

definition example_pair :: heap where
  "example_pair =
     (let (tr, h) = trace_init ''t.trace'' ''S'' ''1ns'' empty_heap;
          (s, h) = create_stream tr ''bus'' None None h;
          (a, h) = begin_transaction s ''A'' 1000 None PyNone h;
          (b, h) = begin_transaction s ''B'' 2000 (Some ''rd'') PyNone h
      in h)"

text \<open>
  Two traces (references 0 and 2), each with one stream (references 1 and 3), and one open
  root transaction \<^verbatim>\<open>P\<close> (reference 4) on the stream of the first trace.
\<close>

definition example_two_traces :: heap where
  "example_two_traces =
     (let (tr0, h) = trace_init ''t.trace'' ''S'' ''1ns'' empty_heap;
          (s1, h) = create_stream tr0 ''bus'' None None h;
          (tr2, h) = trace_init ''u.trace'' ''U'' ''1ps'' h;
          (s3, h) = create_stream tr2 ''mon'' None None h;
          (p, h) = begin_transaction s1 ''P'' 10 None PyNone h
      in h)"

text \<open>
  The pair above with a child \<^verbatim>\<open>C\<close> of \<^verbatim>\<open>A\<close> (reference 4, on track 2), and with the stream
  closed afterwards.
\<close>

definition example_child :: heap where
  "example_child =
     snd (begin_transaction 1 ''C'' 1100 None (PyPerfettoTransaction 2) example_pair)"

definition example_closed :: heap where
  "example_closed = snd (stream_close 1 example_child)"

text \<open>
  What \<^verbatim>\<open>PerfettoStream.close\<close> relies on: the transactions listed by a stream are pairwise
  different objects and each names this stream as its own. \<^verbatim>\<open>begin_transaction\<close> keeps it so.
\<close>

definition stream_owns :: "heap \<Rightarrow> ref \<Rightarrow> bool" where
  "stream_owns h s \<longleftrightarrow>
     distinct (stream_transactions (streams h s)) \<and>
     list_all (\<lambda>t. txn_stream (transactions h t) = s) (stream_transactions (streams h s))"

text \<open>The two packets of the zero-duration slice of a transaction closed at its start time.\<close>

definition forced_slice :: "heap \<Rightarrow> ref \<Rightarrow> TracePacket list" where
  "forced_slice h t =
     (let txn = closed_txn (transactions h t) (txn_start_time (transactions h t))
      in [slice_begin_packet txn, slice_end_packet txn])"

text \<open>
  The calls of the API as data, and a run of calls from the empty heap. A heap is reached
  when some run produces it. \<open>heap_ok\<close> says of a whole heap what \<open>stream_owns\<close> says of one
  stream, together with the fact that listed transactions are existing objects.
\<close>

datatype call =
    Trace_init string string string
  | Create_stream ref string "string option" "string option"
  | Begin_transaction ref string int "string option" py_object
  | Transaction_close ref int
  | Add_int ref string int Radix
  | Add_uint ref string int Radix
  | Add_string ref string string
  | Add_time ref string int
  | Add_bits ref string "byte list" int Radix
  | Add_blob ref string "byte list"
  | Add_link ref py_object LinkType "string option"
  | Stream_close ref

fun run_call :: "call \<Rightarrow> heap \<Rightarrow> heap" where
  "run_call (Trace_init filename name time_units) h = snd (trace_init filename name time_units h)"
| "run_call (Create_stream tr name scope ty) h = snd (create_stream tr name scope ty h)"
| "run_call (Begin_transaction s name start ty parent) h =
     snd (begin_transaction s name start ty parent h)"
| "run_call (Transaction_close t e) h = snd (transaction_close t e h)"
| "run_call (Add_int t name v radix) h = snd (add_int t name v radix h)"
| "run_call (Add_uint t name v radix) h = snd (add_uint t name v radix h)"
| "run_call (Add_string t name v) h = add_string t name v h"
| "run_call (Add_time t name v) h = snd (add_time t name v h)"
| "run_call (Add_bits t name bits num_bits radix) h = add_bits t name bits num_bits radix h"
| "run_call (Add_blob t name bytes) h = add_blob t name bytes h"
| "run_call (Add_link t target kind relation) h = snd (add_link t target kind relation h)"
| "run_call (Stream_close s) h = snd (stream_close s h)"

definition run_calls :: "call list \<Rightarrow> heap" where
  "run_calls cs = fold run_call cs empty_heap"

definition heap_ok :: "heap \<Rightarrow> bool" where
  "heap_ok h \<longleftrightarrow>
     (\<forall>s. stream_owns h s \<and>
          list_all (\<lambda>t. t < next_ref h) (stream_transactions (streams h s)))"

text \<open>
  A stream (reference 1) with two open transactions: \<^verbatim>\<open>N\<close> begun at the time \<open>-5\<close>
  (reference 2) and \<^verbatim>\<open>B\<close> begun at 10 (reference 3).
\<close>

definition example_negative :: heap where
  "example_negative =
     (let (tr, h) = trace_init ''t.trace'' ''S'' ''1ns'' empty_heap;
          (s, h) = create_stream tr ''bus'' None None h;
          (a, h) = begin_transaction s ''N'' (- 5) None PyNone h;
          (b, h) = begin_transaction s ''B'' 10 None PyNone h
      in h)"

text \<open>
  The two traces above, with a child \<^verbatim>\<open>Q\<close> of \<^verbatim>\<open>P\<close> on the stream of the first trace
  (reference 5, on track 2 of the first trace).
\<close>

definition example_foreign :: heap where
  "example_foreign =
     snd (begin_transaction 1 ''Q'' 20 None (PyPerfettoTransaction 4) example_two_traces)"

declare write_varint.simps [simp del] bin_digits.simps [simp del] oct_digits.simps [simp del]

section \<open>The varint writer\<close>

text \<open>The loop of \<^verbatim>\<open>_write_varint\<close> in arithmetic form.\<close>

lemma and_127_take_bit: "(v::int) AND 127 = take_bit 7 v"
  by (simp add: take_bit_eq_mask mask_eq_exp_minus_1)

lemma and_127_mod: "(v::int) AND 127 = v mod 128"
  by (simp add: and_127_take_bit take_bit_eq_mod)

lemma mod_128_or_128: "((v::int) mod 128) OR 128 = v mod 128 + 128"
proof -
  have "take_bit 7 v OR push_bit 7 (1::int) = take_bit 7 v + push_bit 7 1"
    using concat_bit_eq [of 7 v 1] by (simp only: concat_bit_def)
  then show ?thesis
    by (simp add: take_bit_eq_mod)
qed

lemma drop_bit_7: "drop_bit 7 (v::int) = v div 128"
  by (simp add: drop_bit_eq_div)

lemma write_varint_unfold:
  "write_varint v =
     (if 128 \<le> v then word_of_int (v mod 128 + 128) # write_varint (v div 128)
      else [word_of_int (v mod 128)])"
  by (subst write_varint.simps) (simp only: and_127_mod mod_128_or_128 drop_bit_7)

lemma mod128_div: "(v mod 128 + 128) div 128 = (1::int)"
  by simp

lemma cont_byte_bit7: "bit (word_of_int (v mod 128 + 128) :: byte) 7"
proof -
  have "bit (v mod 128 + 128) (7::nat)"
    unfolding bit_iff_odd using mod128_div [of v] by simp
  then show ?thesis
    by (simp only: bit_word_of_int_iff) simp
qed

lemma last_byte_bit7: "\<not> bit (word_of_int (v mod 128) :: byte) 7"
proof -
  have "\<not> bit (v mod 128) (7::nat)"
    unfolding bit_iff_odd by simp
  then show ?thesis
    by (simp only: bit_word_of_int_iff) simp
qed

lemma last_byte_uint: "uint (word_of_int (v mod 128) :: byte) = v mod 128"
  unfolding uint_word_of_int by (simp add: take_bit_eq_mod)

lemma uint_and_127: "uint ((b::byte) AND 0x7F) = uint b mod 128"
  by (simp add: uint_and and_127_mod)

lemma cont_byte_uint: "uint (word_of_int (v mod 128 + 128) :: byte) = v mod 128 + 128"
  unfolding uint_word_of_int by (simp add: take_bit_eq_mod)

lemma cont_byte_low: "uint ((word_of_int (v mod 128 + 128) :: byte) AND 0x7F) = v mod 128"
  unfolding uint_and_127 cont_byte_uint by simp

lemma write_varint_nonempty: "write_varint v \<noteq> []"
  by (subst write_varint_unfold) simp

lemma decode_write_varint:
  "0 \<le> v \<Longrightarrow> decode_uvarint (write_varint v @ rest) = Some (v, rest)"
proof (induction v rule: write_varint.induct)
  case (1 v)
  show ?case
  proof (cases "128 \<le> v")
    case True
    define b :: byte where "b = word_of_int (v mod 128 + 128)"
    have b7: "bit b 7" and blow: "uint (b AND 0x7F) = v mod 128"
      unfolding b_def by (rule cont_byte_bit7, rule cont_byte_low)
    from True have unf: "write_varint v = b # write_varint (v div 128)"
      unfolding b_def by (subst write_varint_unfold) simp
    from True 1 have "decode_uvarint (write_varint (v div 128) @ rest) = Some (v div 128, rest)"
      by (simp add: drop_bit_7 del: write_varint.simps)
    then show ?thesis
      by (simp add: unf b7 blow del: write_varint.simps)
  next
    case False
    define b :: byte where "b = word_of_int (v mod 128)"
    have b7: "\<not> bit b 7" and bu: "uint b = v mod 128"
      unfolding b_def by (rule last_byte_bit7, rule last_byte_uint)
    from False have unf: "write_varint v = [b]"
      unfolding b_def by (subst write_varint_unfold) simp
    from False 1 have "v mod 128 = v" by simp
    then show ?thesis
      by (simp add: unf b7 bu del: write_varint.simps)
  qed
qed

lemma write_varint_groups:
  "i < length (write_varint v) \<Longrightarrow>
   uint (write_varint v ! i AND 0x7F) = (v div 128 ^ i) mod 128"
proof (induction v arbitrary: i rule: write_varint.induct)
  case (1 v)
  show ?case
  proof (cases "128 \<le> v")
    case True
    then have unf: "write_varint v = word_of_int (v mod 128 + 128) # write_varint (v div 128)"
      by (subst write_varint_unfold) simp
    show ?thesis
    proof (cases i)
      case 0
      then show ?thesis by (simp only: unf nth_Cons_0 cont_byte_low) simp
    next
      case (Suc j)
      with "1.prems" unf have "j < length (write_varint (v div 128))" by simp
      with 1 True have "uint (write_varint (v div 128) ! j AND 0x7F) = (v div 128 div 128 ^ j) mod 128"
        by (simp add: drop_bit_7 del: write_varint.simps)
      with Suc show ?thesis
        by (simp only: unf nth_Cons_Suc) (simp add: zdiv_zmult2_eq del: write_varint.simps)
    qed
  next
    case False
    then have unf: "write_varint v = [word_of_int (v mod 128)]"
      by (subst write_varint_unfold) simp
    with "1.prems" have "i = 0" by simp
    then show ?thesis
      by (simp only: unf nth_Cons_0 uint_and_127 last_byte_uint) simp
  qed
qed

lemma write_varint_high_bits:
  "i < length (write_varint v) \<Longrightarrow>
   bit (write_varint v ! i) 7 \<longleftrightarrow> Suc i < length (write_varint v)"
proof (induction v arbitrary: i rule: write_varint.induct)
  case (1 v)
  show ?case
  proof (cases "128 \<le> v")
    case True
    then have unf: "write_varint v = word_of_int (v mod 128 + 128) # write_varint (v div 128)"
      by (subst write_varint_unfold) simp
    show ?thesis
    proof (cases i)
      case 0
      then show ?thesis using write_varint_nonempty [of "v div 128"]
        by (simp only: unf nth_Cons_0 cont_byte_bit7) simp
    next
      case (Suc j)
      with "1.prems" unf have "j < length (write_varint (v div 128))" by simp
      with 1 True have "bit (write_varint (v div 128) ! j) 7 \<longleftrightarrow> Suc j < length (write_varint (v div 128))"
        by (simp add: drop_bit_7 del: write_varint.simps)
      with Suc show ?thesis by (simp only: unf nth_Cons_Suc) simp
    qed
  next
    case False
    then have unf: "write_varint v = [word_of_int (v mod 128)]"
      by (subst write_varint_unfold) simp
    with "1.prems" have "i = 0" by simp
    then show ?thesis
      by (simp only: unf nth_Cons_0 last_byte_bit7) simp
  qed
qed

lemma write_varint_length:
  "0 < n \<Longrightarrow> v < 128 ^ n \<Longrightarrow> length (write_varint v) \<le> n"
proof (induction v arbitrary: n rule: write_varint.induct)
  case (1 v)
  show ?case
  proof (cases "128 \<le> v")
    case True
    then have unf: "write_varint v = word_of_int (v mod 128 + 128) # write_varint (v div 128)"
      by (subst write_varint_unfold) simp
    from "1.prems" obtain m where n: "n = Suc m" by (cases n) auto
    with True "1.prems" have "0 < m" by (cases m) auto
    moreover have "128 * (v div 128) \<le> v"
      using mult_div_mod_eq [of 128 v] pos_mod_sign [of 128 v] by linarith
    with "1.prems" n have "v div 128 < 128 ^ m"
      by simp
    ultimately have "length (write_varint (v div 128)) \<le> m"
      using 1 True by (simp add: drop_bit_7 del: write_varint.simps)
    with n show ?thesis by (simp only: unf) simp
  next
    case False
    then have unf: "write_varint v = [word_of_int (v mod 128)]"
      by (subst write_varint_unfold) simp
    with "1.prems" show ?thesis by (simp only: unf) simp
  qed
qed

text \<open>
  C9. For every \<open>v\<close> with \<open>0 \<le> v < 2^64\<close> the writer emits between one and ten bytes; byte
  \<open>i\<close> carries bits \<open>7i .. 7i+6\<close> of \<open>v\<close> in its low seven bits (low-order groups first);
  the high bit is set on every byte except the last; and the standard unsigned varint
  decoding of the emitted bytes, whatever follows them, gives back \<open>v\<close> and leaves what
  follows unread.
\<close>

theorem write_varint_roundtrip:
  assumes "0 \<le> v" and "v < 2 ^ 64"
  shows "let bs = write_varint v in
           1 \<le> length bs \<and> length bs \<le> 10 \<and>
           (\<forall>i < length bs. uint (bs ! i AND 0x7F) = (v div 128 ^ i) mod 128) \<and>
           (\<forall>i < length bs. bit (bs ! i) 7 \<longleftrightarrow> Suc i < length bs) \<and>
           (\<forall>rest. decode_uvarint (bs @ rest) = Some (v, rest))"
proof -
  have "write_varint v \<noteq> []"
    by (rule write_varint_nonempty)
  then have l1: "1 \<le> length (write_varint v)"
    by (cases "write_varint v") simp_all
  from assms(2) have "v < 128 ^ 10"
    by simp
  then have l2: "length (write_varint v) \<le> 10"
    by (intro write_varint_length) simp_all
  from assms(1) have rt: "\<forall>rest. decode_uvarint (write_varint v @ rest) = Some (v, rest)"
    by (simp add: decode_write_varint del: write_varint.simps)
  from l1 l2 rt show ?thesis
    unfolding Let_def using write_varint_groups [of _ v] write_varint_high_bits [of _ v]
    by blast
qed

theorem write_varint_roundtrip_witness:
  "(0::int) \<le> 300 \<and> (300::int) < 2 ^ 64 \<and> write_varint 300 = [172, 2] \<and>
   decode_uvarint (write_varint 300 @ [7]) = Some (300, [7])"
proof -
  have h1: "(0::int) \<le> 300" and h2: "(300::int) < 2 ^ 64"
    by simp_all
  have v: "write_varint 300 = [172, 2]"
    by code_simp
  from write_varint_roundtrip [OF h1 h2]
  have "\<forall>rest. decode_uvarint (write_varint 300 @ rest) = Some (300, rest)"
    unfolding Let_def by blast
  then have "decode_uvarint (write_varint 300 @ [7]) = Some (300, [7])"
    by blast
  with h1 h2 v show ?thesis
    by blast
qed

text \<open>The length prefix of a record written by \<^verbatim>\<open>_write_packet\<close> reads back as its length.\<close>

lemma decode_packet_bytes:
  "decode_uvarint (packet_bytes ser p @ rest) = Some (int (length (ser p)), ser p @ rest)"
  by (simp add: packet_bytes_def Let_def decode_write_varint del: write_varint.simps)

section \<open>Identifier allocation\<close>

lemma allocate_fst: "fst (allocate a self) = counter a self"
  by (cases a) (simp_all add: allocate_track_uuid_def allocate_transaction_id_def allocate_flow_id_def)

lemma allocate_counter:
  "counter b (snd (allocate a self)) = (if a = b then counter b self + 1 else counter b self)"
  by (cases a; cases b)
    (simp_all add: allocate_track_uuid_def allocate_transaction_id_def allocate_flow_id_def)

lemma returned_run_allocators:
  "returned a (run_allocators cs self) = map (\<lambda>i. counter a self + int i) [0..<count_list cs a]"
proof (induction cs arbitrary: self)
  case Nil
  then show ?case by (simp add: returned_def)
next
  case (Cons c cs)
  obtain v self' where al: "allocate c self = (v, self')"
    by (cases "allocate c self")
  then have v: "v = counter c self"
    and c': "counter a self' = (if c = a then counter a self + 1 else counter a self)"
    using allocate_fst [of c self] allocate_counter [of a c self] by simp_all
  have ih: "returned a (run_allocators cs self') =
      map (\<lambda>i. counter a self' + int i) [0..<count_list cs a]"
    by (rule Cons.IH)
  show ?case
  proof (cases "c = a")
    case True
    have "[0..<Suc (count_list cs a)] = 0 # map Suc [0..<count_list cs a]"
      by (simp add: upt_conv_Cons map_Suc_upt del: upt_Suc)
    with True al v c' ih show ?thesis
      by (simp add: returned_def comp_def del: upt_Suc)
  next
    case False
    with al v c' ih show ?thesis
      by (simp add: returned_def)
  qed
qed

lemma counter_new_trace: "counter a (new_trace f n u) = 1"
  by (cases a) (simp_all add: new_trace_def)

lemma increasing_run: "sorted_wrt (<) (map (\<lambda>i. c + int i) [0..<m])"
  by (simp add: sorted_wrt_map sorted_wrt_iff_nth_less)

lemma distinct_run: "distinct (map (\<lambda>i. c + int i) [0..<m])"
  by (simp add: distinct_map inj_on_def)

text \<open>
  C2. On a new trace each allocator returns 1 at its first call. A call returns the
  current counter and adds one to that counter alone. So in every sequence of calls on a
  new trace, however the three allocators are interleaved, the \<open>k\<close>-th call of one
  allocator returns \<open>k\<close>; and from any trace state the values one allocator returns are
  strictly increasing and pairwise distinct.
\<close>

theorem allocators_count_up_from_one:
  "fst (allocate a (new_trace f n u)) = 1 \<and>
   fst (allocate a self) = counter a self \<and>
   counter a (snd (allocate a self)) = counter a self + 1 \<and>
   returned a (run_allocators cs (new_trace f n u)) = map (\<lambda>i. 1 + int i) [0..<count_list cs a] \<and>
   sorted_wrt (<) (returned a (run_allocators cs self)) \<and>
   distinct (returned a (run_allocators cs self))"
  by (simp add: allocate_fst allocate_counter counter_new_trace returned_run_allocators
      increasing_run distinct_run)


section \<open>Closing a transaction\<close>

lemma transaction_close_open:
  assumes "txn_is_open (transactions h t)"
    and "uint64_ok (txn_start_time (transactions h t))" and "uint64_ok e"
  shows "transaction_close t e h =
     (Inr (),
      h\<lparr>transactions := (transactions h)(t := closed_txn (transactions h t) e),
        traces := (traces h)(trace_of h t := (traces h (trace_of h t))
          \<lparr>trace_file := trace_file (traces h (trace_of h t)) @
              [slice_begin_packet (closed_txn (transactions h t) e),
               slice_end_packet (closed_txn (transactions h t) e)]\<rparr>)\<rparr>)"
  using assms
  by (simp add: transaction_close_def Let_def upd_txn_def upd_trace_def emit_slice_begin_def
      emit_slice_end_def write_packet_def trace_of_def closed_txn_def)

lemma transaction_close_closed:
  "\<not> txn_is_open (transactions h t) \<Longrightarrow> transaction_close t e h = (Inr (), h)"
  by (simp add: transaction_close_def)

text \<open>
  What \<^verbatim>\<open>close\<close> leaves behind when a timestamp is refused. A start time out of range
  stops the slice-begin: the end time and the flag are assigned and nothing is written. An
  end time out of range stops the slice-end: the slice-begin is in the file already.
\<close>

lemma transaction_close_bad_start:
  assumes "txn_is_open (transactions h t)"
    and "\<not> uint64_ok (txn_start_time (transactions h t))"
  shows "transaction_close t e h =
     (Inl ValueError, h\<lparr>transactions := (transactions h)(t := closed_txn (transactions h t) e)\<rparr>)"
  using assms
  by (simp add: transaction_close_def Let_def upd_txn_def emit_slice_begin_def closed_txn_def)

lemma transaction_close_bad_end:
  assumes "txn_is_open (transactions h t)"
    and "uint64_ok (txn_start_time (transactions h t))" and "\<not> uint64_ok e"
  shows "transaction_close t e h =
     (Inl ValueError,
      h\<lparr>transactions := (transactions h)(t := closed_txn (transactions h t) e),
        traces := (traces h)(trace_of h t := (traces h (trace_of h t))
          \<lparr>trace_file := trace_file (traces h (trace_of h t)) @
              [slice_begin_packet (closed_txn (transactions h t) e)]\<rparr>)\<rparr>)"
  using assms
  by (simp add: transaction_close_def Let_def upd_txn_def upd_trace_def emit_slice_begin_def
      emit_slice_end_def write_packet_def trace_of_def closed_txn_def)

text \<open>Whatever the outcome, \<^verbatim>\<open>close\<close> on an open transaction assigns the end time and the flag.\<close>

lemma transaction_close_flags:
  assumes "txn_is_open (transactions h t)"
  shows "transactions (snd (transaction_close t e h)) =
     (transactions h)(t := closed_txn (transactions h t) e)"
proof (cases "uint64_ok (txn_start_time (transactions h t))")
  case True
  then show ?thesis
    using assms transaction_close_open [of h t e] transaction_close_bad_end [of h t e]
    by (cases "uint64_ok e") simp_all
next
  case False
  then show ?thesis
    using assms by (simp add: transaction_close_bad_start)
qed

lemmas api_defs = trace_init_def create_stream_def begin_transaction_def transaction_init_def
  stream_init_def add_uint_def add_attr_def on_trace_def upd_trace_def upd_stream_def upd_txn_def
  emit_clock_snapshot_def emit_track_descriptor_def emit_child_track_descriptor_def
  write_packet_def allocate_track_uuid_def allocate_transaction_id_def allocate_flow_id_def
  new_trace_def empty_heap_def clock_snapshot_packet_def track_descriptor_packet_def
  child_track_descriptor_packet_def trace_of_def format_name_def radix_suffixes_def
  blank_trace_def blank_stream_def blank_txn_def uint64_ok_def

lemma example_open_txn:
  "transactions example_open 2 =
     \<lparr>txn_id = 1, txn_stream = 1, txn_name = ''RD'', txn_type_name = None,
      txn_start_time = 100, txn_end_time = 0, txn_is_open = True, txn_parent = None,
      txn_attributes = [\<lparr>an_name = ''addr[hex]'', an_value = Uint_value 16\<rparr>],
      txn_flow_ids = [], txn_track_uuid = 1\<rparr>"
  by (simp add: example_open_def api_defs Let_def)

lemma example_open_trace_of: "trace_of example_open 2 = 0"
  by (simp add: example_open_def api_defs Let_def)

lemma example_open_file:
  "trace_file (traces example_open 0) =
     [\<lparr>timestamp = 0, data = Clock_snapshot [(64, 0)]\<rparr>,
      \<lparr>timestamp = 0, data = Track_descriptor 1 ''bus'' None\<rparr>]"
  by (simp add: example_open_def api_defs Let_def)

lemma example_negative_facts:
  "transactions example_negative 2 =
     \<lparr>txn_id = 1, txn_stream = 1, txn_name = ''N'', txn_type_name = None,
      txn_start_time = - 5, txn_end_time = 0, txn_is_open = True, txn_parent = None,
      txn_attributes = [], txn_flow_ids = [], txn_track_uuid = 1\<rparr>"
  "transactions example_negative 3 =
     \<lparr>txn_id = 2, txn_stream = 1, txn_name = ''B'', txn_type_name = None,
      txn_start_time = 10, txn_end_time = 0, txn_is_open = True, txn_parent = None,
      txn_attributes = [], txn_flow_ids = [], txn_track_uuid = 1\<rparr>"
  "streams example_negative (Suc 0) =
     \<lparr>stream_trace = 0, stream_track_uuid = 1, stream_name = ''bus'', stream_scope = None,
      stream_type_name = None, stream_is_open = True, stream_transactions = [2, 3]\<rparr>"
  "trace_file (traces example_negative 0) =
     [\<lparr>timestamp = 0, data = Clock_snapshot [(64, 0)]\<rparr>,
      \<lparr>timestamp = 0, data = Track_descriptor 1 ''bus'' None\<rparr>]"
  by (simp_all add: example_negative_def api_defs Let_def)

text \<open>
  C1, as amended. Let a transaction be open, its start time in the unsigned 64-bit range,
  and \<open>end_time\<close> in that range. Then \<^verbatim>\<open>close(end_time)\<close> returns without an exception,
  sets the end time and clears the open flag, changes nothing else in the transaction, and
  appends to the file of its stream's trace exactly two packets: first the slice-begin
  with the start time as timestamp, the transaction's track, name, category, attributes
  and flow ids; then the slice-end with the end time as timestamp, the same track and the
  same flow ids. No other trace, transaction or stream changes. Closing a transaction
  that is not open returns the heap as it was: no packet, the end time as before. The
  state CLOSED is read as the open flag being false.
\<close>

theorem transaction_close_emits_slice:
  "(txn_is_open (transactions h t) \<and> uint64_ok (txn_start_time (transactions h t)) \<and>
    uint64_ok e \<longrightarrow>
      (let (res, h') = transaction_close t e h; txn = transactions h t; r = trace_of h t in
         res = Inr () \<and>
         txn_end_time (transactions h' t) = e \<and>
         \<not> txn_is_open (transactions h' t) \<and>
         transactions h' t = txn\<lparr>txn_end_time := e, txn_is_open := False\<rparr> \<and>
         trace_file (traces h' r) = trace_file (traces h r) @
           [\<lparr>timestamp = txn_start_time txn,
             data = Track_event
               \<lparr>ev_type = TYPE_SLICE_BEGIN, ev_track_uuid = txn_track_uuid txn,
                ev_name = Some (txn_name txn),
                ev_categories =
                  (case txn_type_name txn of
                     Some ty \<Rightarrow> if ty \<noteq> [] then [ty] else []
                   | None \<Rightarrow> []),
                ev_debug_annotations = txn_attributes txn,
                ev_flow_ids = txn_flow_ids txn\<rparr>\<rparr>,
            \<lparr>timestamp = e,
             data = Track_event
               \<lparr>ev_type = TYPE_SLICE_END, ev_track_uuid = txn_track_uuid txn,
                ev_name = None, ev_categories = [], ev_debug_annotations = [],
                ev_flow_ids = txn_flow_ids txn\<rparr>\<rparr>] \<and>
         (\<forall>r'. r' \<noteq> r \<longrightarrow> traces h' r' = traces h r') \<and>
         (\<forall>t'. t' \<noteq> t \<longrightarrow> transactions h' t' = transactions h t') \<and>
         streams h' = streams h \<and> next_ref h' = next_ref h)) \<and>
   (\<not> txn_is_open (transactions h t) \<longrightarrow> transaction_close t e h = (Inr (), h))"
proof -
  have a: "txn_is_open (transactions h t) \<and> uint64_ok (txn_start_time (transactions h t)) \<and>
    uint64_ok e \<longrightarrow>
      (let (res, h') = transaction_close t e h; txn = transactions h t; r = trace_of h t in
         res = Inr () \<and>
         txn_end_time (transactions h' t) = e \<and>
         \<not> txn_is_open (transactions h' t) \<and>
         transactions h' t = txn\<lparr>txn_end_time := e, txn_is_open := False\<rparr> \<and>
         trace_file (traces h' r) = trace_file (traces h r) @
           [\<lparr>timestamp = txn_start_time txn,
             data = Track_event
               \<lparr>ev_type = TYPE_SLICE_BEGIN, ev_track_uuid = txn_track_uuid txn,
                ev_name = Some (txn_name txn),
                ev_categories =
                  (case txn_type_name txn of
                     Some ty \<Rightarrow> if ty \<noteq> [] then [ty] else []
                   | None \<Rightarrow> []),
                ev_debug_annotations = txn_attributes txn,
                ev_flow_ids = txn_flow_ids txn\<rparr>\<rparr>,
            \<lparr>timestamp = e,
             data = Track_event
               \<lparr>ev_type = TYPE_SLICE_END, ev_track_uuid = txn_track_uuid txn,
                ev_name = None, ev_categories = [], ev_debug_annotations = [],
                ev_flow_ids = txn_flow_ids txn\<rparr>\<rparr>] \<and>
         (\<forall>r'. r' \<noteq> r \<longrightarrow> traces h' r' = traces h r') \<and>
         (\<forall>t'. t' \<noteq> t \<longrightarrow> transactions h' t' = transactions h t') \<and>
         streams h' = streams h \<and> next_ref h' = next_ref h)"
    by (simp add: transaction_close_open Let_def closed_txn_def slice_begin_packet_def
        slice_end_packet_def)
  have b: "\<not> txn_is_open (transactions h t) \<longrightarrow> transaction_close t e h = (Inr (), h)"
    by (simp add: transaction_close_closed)
  from a b show ?thesis
    by blast
qed

theorem transaction_close_emits_slice_witness:
  "txn_is_open (transactions example_open 2) \<and>
   uint64_ok (txn_start_time (transactions example_open 2)) \<and> uint64_ok 200 \<and>
   fst (transaction_close 2 200 example_open) = Inr () \<and>
   trace_file (traces (snd (transaction_close 2 200 example_open)) 0) =
     [\<lparr>timestamp = 0, data = Clock_snapshot [(64, 0)]\<rparr>,
      \<lparr>timestamp = 0, data = Track_descriptor 1 ''bus'' None\<rparr>,
      \<lparr>timestamp = 100,
       data = Track_event
         \<lparr>ev_type = TYPE_SLICE_BEGIN, ev_track_uuid = 1, ev_name = Some ''RD'',
          ev_categories = [],
          ev_debug_annotations = [\<lparr>an_name = ''addr[hex]'', an_value = Uint_value 16\<rparr>],
          ev_flow_ids = []\<rparr>\<rparr>,
      \<lparr>timestamp = 200,
       data = Track_event
         \<lparr>ev_type = TYPE_SLICE_END, ev_track_uuid = 1, ev_name = None, ev_categories = [],
          ev_debug_annotations = [], ev_flow_ids = []\<rparr>\<rparr>] \<and>
   \<not> txn_is_open (transactions (snd (transaction_close 2 200 example_open)) 2) \<and>
   transaction_close 2 300 (snd (transaction_close 2 200 example_open)) =
     (Inr (), snd (transaction_close 2 200 example_open))"
proof -
  have o: "txn_is_open (transactions example_open 2)"
    and s: "uint64_ok (txn_start_time (transactions example_open 2))"
    and e: "uint64_ok 200"
    by (simp_all add: example_open_txn uint64_ok_def)
  obtain res h' where c: "transaction_close 2 200 example_open = (res, h')"
    by (cases "transaction_close 2 200 example_open")
  from transaction_close_emits_slice [of example_open 2 200] o s e c
  have r: "res = Inr ()"
    and a: "\<not> txn_is_open (transactions h' 2)"
    and b: "trace_file (traces h' 0) =
      trace_file (traces example_open 0) @
        [\<lparr>timestamp = 100,
          data = Track_event
            \<lparr>ev_type = TYPE_SLICE_BEGIN, ev_track_uuid = 1, ev_name = Some ''RD'',
             ev_categories = [],
             ev_debug_annotations = [\<lparr>an_name = ''addr[hex]'', an_value = Uint_value 16\<rparr>],
             ev_flow_ids = []\<rparr>\<rparr>,
         \<lparr>timestamp = 200,
          data = Track_event
            \<lparr>ev_type = TYPE_SLICE_END, ev_track_uuid = 1, ev_name = None,
             ev_categories = [], ev_debug_annotations = [], ev_flow_ids = []\<rparr>\<rparr>]"
    by (simp_all add: Let_def example_open_trace_of example_open_txn)
  from transaction_close_emits_slice [of h' 2 300] a
  have d: "transaction_close 2 300 h' = (Inr (), h')"
    by simp
  from o s e r a b d show ?thesis
    unfolding c by (simp add: example_open_file)
qed

text \<open>
  The claim as first stated fails outside the range. \<^verbatim>\<open>close(-1)\<close> on the open
  transaction of the example raises \<^verbatim>\<open>ValueError\<close> after the end time and the flag are
  assigned and the slice-begin is written: one packet is emitted, not two; \<^verbatim>\<open>close(2^64)\<close>
  raises as well. \<^verbatim>\<open>close(200)\<close> on the open transaction begun at \<open>-5\<close> raises before any
  packet is written.
\<close>

theorem transaction_close_out_of_range_counterexample:
  "txn_is_open (transactions example_open 2) \<and>
   fst (transaction_close 2 (- 1) example_open) = Inl ValueError \<and>
   \<not> txn_is_open (transactions (snd (transaction_close 2 (- 1) example_open)) 2) \<and>
   txn_end_time (transactions (snd (transaction_close 2 (- 1) example_open)) 2) = - 1 \<and>
   trace_file (traces (snd (transaction_close 2 (- 1) example_open)) 0) =
     trace_file (traces example_open 0) @
       [\<lparr>timestamp = 100,
         data = Track_event
           \<lparr>ev_type = TYPE_SLICE_BEGIN, ev_track_uuid = 1, ev_name = Some ''RD'',
            ev_categories = [],
            ev_debug_annotations = [\<lparr>an_name = ''addr[hex]'', an_value = Uint_value 16\<rparr>],
            ev_flow_ids = []\<rparr>\<rparr>] \<and>
   length (trace_file (traces (snd (transaction_close 2 (- 1) example_open)) 0)) =
     length (trace_file (traces example_open 0)) + 1 \<and>
   fst (transaction_close 2 (2 ^ 64) example_open) = Inl ValueError \<and>
   txn_is_open (transactions example_negative 2) \<and>
   fst (transaction_close 2 200 example_negative) = Inl ValueError \<and>
   trace_file (traces (snd (transaction_close 2 200 example_negative)) 0) =
     trace_file (traces example_negative 0)"
proof -
  have o: "txn_is_open (transactions example_open 2)"
    and s: "uint64_ok (txn_start_time (transactions example_open 2))"
    and e: "\<not> uint64_ok (- 1)" and e': "\<not> uint64_ok (2 ^ 64)"
    by (simp_all add: example_open_txn uint64_ok_def)
  have o2: "txn_is_open (transactions example_negative 2)"
    and s2: "\<not> uint64_ok (txn_start_time (transactions example_negative 2))"
    by (simp_all add: example_negative_facts uint64_ok_def)
  show ?thesis
    unfolding transaction_close_bad_end [OF o s e] transaction_close_bad_end [OF o s e']
      transaction_close_bad_start [OF o2 s2]
    by (simp add: example_open_txn example_open_trace_of closed_txn_def slice_begin_packet_def
        example_negative_facts)
qed

text \<open>
  C10, as amended. \<^verbatim>\<open>is_closed()\<close> is true exactly when the transaction is not open and
  its end time is greater than 0. After \<^verbatim>\<open>close(0)\<close> on an open transaction both
  \<^verbatim>\<open>is_open()\<close> and \<^verbatim>\<open>is_closed()\<close> are false; and the two slice packets are written, the
  slice-end with timestamp 0, when the start time of the transaction is in the unsigned
  64-bit range.
\<close>

theorem is_closed_needs_positive_end_time:
  "(is_closed h t \<longleftrightarrow> \<not> is_open h t \<and> 0 < txn_end_time (transactions h t)) \<and>
   (is_open h t \<longrightarrow>
      (let (res, h') = transaction_close t 0 h in
         \<not> is_open h' t \<and> \<not> is_closed h' t)) \<and>
   (is_open h t \<and> uint64_ok (txn_start_time (transactions h t)) \<longrightarrow>
      (let (res, h') = transaction_close t 0 h; txn = transactions h t in
         res = Inr () \<and>
         trace_file (traces h' (trace_of h t)) = trace_file (traces h (trace_of h t)) @
           [\<lparr>timestamp = txn_start_time txn,
             data = Track_event
               \<lparr>ev_type = TYPE_SLICE_BEGIN, ev_track_uuid = txn_track_uuid txn,
                ev_name = Some (txn_name txn),
                ev_categories =
                  (case txn_type_name txn of
                     Some ty \<Rightarrow> if ty \<noteq> [] then [ty] else []
                   | None \<Rightarrow> []),
                ev_debug_annotations = txn_attributes txn,
                ev_flow_ids = txn_flow_ids txn\<rparr>\<rparr>,
            \<lparr>timestamp = 0,
             data = Track_event
               \<lparr>ev_type = TYPE_SLICE_END, ev_track_uuid = txn_track_uuid txn,
                ev_name = None, ev_categories = [], ev_debug_annotations = [],
                ev_flow_ids = txn_flow_ids txn\<rparr>\<rparr>]))"
proof -
  have z: "uint64_ok 0"
    by (simp add: uint64_ok_def)
  have a: "is_closed h t \<longleftrightarrow> \<not> is_open h t \<and> 0 < txn_end_time (transactions h t)"
    by (simp add: is_closed_def is_open_def)
  have b: "is_open h t \<longrightarrow>
      (let (res, h') = transaction_close t 0 h in \<not> is_open h' t \<and> \<not> is_closed h' t)"
  proof
    assume "is_open h t"
    then have "txn_is_open (transactions h t)"
      by (simp add: is_open_def)
    from transaction_close_flags [OF this, of 0]
    show "let (res, h') = transaction_close t 0 h in \<not> is_open h' t \<and> \<not> is_closed h' t"
      by (simp add: Let_def split_beta is_open_def is_closed_def closed_txn_def)
  qed
  have c: "is_open h t \<and> uint64_ok (txn_start_time (transactions h t)) \<longrightarrow>
      (let (res, h') = transaction_close t 0 h; txn = transactions h t in
         res = Inr () \<and>
         trace_file (traces h' (trace_of h t)) = trace_file (traces h (trace_of h t)) @
           [\<lparr>timestamp = txn_start_time txn,
             data = Track_event
               \<lparr>ev_type = TYPE_SLICE_BEGIN, ev_track_uuid = txn_track_uuid txn,
                ev_name = Some (txn_name txn),
                ev_categories =
                  (case txn_type_name txn of
                     Some ty \<Rightarrow> if ty \<noteq> [] then [ty] else []
                   | None \<Rightarrow> []),
                ev_debug_annotations = txn_attributes txn,
                ev_flow_ids = txn_flow_ids txn\<rparr>\<rparr>,
            \<lparr>timestamp = 0,
             data = Track_event
               \<lparr>ev_type = TYPE_SLICE_END, ev_track_uuid = txn_track_uuid txn,
                ev_name = None, ev_categories = [], ev_debug_annotations = [],
                ev_flow_ids = txn_flow_ids txn\<rparr>\<rparr>])"
    using z
    by (simp add: is_open_def transaction_close_open Let_def closed_txn_def
        slice_begin_packet_def slice_end_packet_def)
  from a b c show ?thesis
    by blast
qed

theorem is_closed_needs_positive_end_time_witness:
  "is_open example_open 2 \<and> uint64_ok (txn_start_time (transactions example_open 2)) \<and>
   fst (transaction_close 2 0 example_open) = Inr () \<and>
   \<not> is_open (snd (transaction_close 2 0 example_open)) 2 \<and>
   \<not> is_closed (snd (transaction_close 2 0 example_open)) 2 \<and>
   map timestamp (trace_file (traces (snd (transaction_close 2 0 example_open)) 0)) =
     [0, 0, 100, 0]"
proof -
  have o: "is_open example_open 2"
    and s: "uint64_ok (txn_start_time (transactions example_open 2))"
    by (simp_all add: is_open_def example_open_txn uint64_ok_def)
  obtain res h' where c: "transaction_close 2 0 example_open = (res, h')"
    by (cases "transaction_close 2 0 example_open")
  from is_closed_needs_positive_end_time [of example_open 2] o s c
  have "res = Inr ()" and "\<not> is_open h' 2" and "\<not> is_closed h' 2"
    and "map timestamp (trace_file (traces h' 0)) =
      map timestamp (trace_file (traces example_open 0)) @ [100, 0]"
    by (simp_all add: Let_def example_open_trace_of example_open_txn)
  with o s show ?thesis
    unfolding c by (simp add: example_open_file)
qed

text \<open>
  The claim as first stated fails in its remark on the packets: \<^verbatim>\<open>close(0)\<close> on the open
  transaction begun at \<open>-5\<close> raises \<^verbatim>\<open>ValueError\<close> in the slice-begin and writes no packet,
  while \<^verbatim>\<open>is_open()\<close> and \<^verbatim>\<open>is_closed()\<close> are both false afterwards.
\<close>

theorem close_zero_negative_start_counterexample:
  "is_open example_negative 2 \<and>
   fst (transaction_close 2 0 example_negative) = Inl ValueError \<and>
   trace_file (traces (snd (transaction_close 2 0 example_negative)) 0) =
     trace_file (traces example_negative 0) \<and>
   \<not> is_open (snd (transaction_close 2 0 example_negative)) 2 \<and>
   \<not> is_closed (snd (transaction_close 2 0 example_negative)) 2"
proof -
  have o: "txn_is_open (transactions example_negative 2)"
    and s: "\<not> uint64_ok (txn_start_time (transactions example_negative 2))"
    by (simp_all add: example_negative_facts uint64_ok_def)
  show ?thesis
    unfolding transaction_close_bad_start [OF o s]
    by (simp add: is_open_def is_closed_def closed_txn_def example_negative_facts)
qed

section \<open>Bit-vector rendering\<close>

lemma hexdigits_01: "hexdigits ! 0 = CHR ''0''" "hexdigits ! Suc 0 = CHR ''1''"
  by (simp_all add: hexdigits_def)

lemma bin_digits_small: "n < 2 \<Longrightarrow> bin_digits n = [bit_char (odd n)]"
proof -
  assume "n < 2"
  then have "n = 0 \<or> n = 1" by auto
  then show ?thesis
    by (subst bin_digits.simps) (auto simp: bit_char_def hexdigits_01)
qed

lemma bin_digits_big:
  "2 \<le> n \<Longrightarrow> bin_digits n = bin_digits (n div 2) @ [bit_char (odd n)]"
proof -
  assume "2 \<le> n"
  then have u: "bin_digits n = bin_digits (n div 2) @ [hexdigits ! (n mod 2)]"
    by (subst bin_digits.simps) simp
  have "n mod 2 = 0 \<or> n mod 2 = 1" by auto
  then have "hexdigits ! (n mod 2) = bit_char (odd n)"
    by (auto simp: bit_char_def hexdigits_01 odd_iff_mod_2_eq_one)
  with u show ?thesis by simp
qed

lemma rev_upt_Suc: "rev [0..<Suc k] = map Suc (rev [0..<k]) @ [0]"
proof -
  have "[0..<Suc k] = 0 # map Suc [0..<k]"
    by (simp add: upt_conv_Cons map_Suc_upt del: upt_Suc)
  then show ?thesis by (simp add: rev_map del: upt_Suc)
qed

lemma pad_bin_digits:
  "n < 2 ^ k \<Longrightarrow> 0 < k \<Longrightarrow>
   replicate (k - length (bin_digits n)) (CHR ''0'') @ bin_digits n =
   map (\<lambda>i. bit_char (bit n i)) (rev [0..<k])"
proof (induction k arbitrary: n)
  case 0
  then show ?case by simp
next
  case (Suc k)
  show ?case
  proof (cases "n < 2")
    case True
    then have "n div 2 = 0" by simp
    then have "\<And>i. bit n (Suc i) = False"
      by (simp add: bit_Suc)
    then have "map (\<lambda>i. bit_char (bit n i)) (map Suc (rev [0..<k])) = replicate k (CHR ''0'')"
      by (simp add: comp_def bit_char_def map_replicate_const)
    with True show ?thesis
      by (simp only: rev_upt_Suc map_append bin_digits_small) (simp add: bit_0)
  next
    case False
    then have big: "2 \<le> n" by simp
    with Suc.prems have k: "0 < k" by (cases k) auto
    from Suc.prems have "n div 2 < 2 ^ k" by simp
    then have ih: "replicate (k - length (bin_digits (n div 2))) (CHR ''0'') @ bin_digits (n div 2) =
        map (\<lambda>i. bit_char (bit (n div 2) i)) (rev [0..<k])"
      using k by (rule Suc.IH)
    have "map (\<lambda>i. bit_char (bit n i)) (map Suc (rev [0..<k])) =
        map (\<lambda>i. bit_char (bit (n div 2) i)) (rev [0..<k])"
      by (simp add: comp_def bit_Suc)
    with ih show ?thesis
      by (simp only: rev_upt_Suc map_append bin_digits_big [OF big]) (simp add: bit_0)
  qed
qed

lemma format_08b_bits:
  "format_08b b = map (\<lambda>i. bit_char (bit b i)) [7, 6, 5, 4, 3, 2, 1, 0]"
proof -
  have "unat b < 2 ^ 8"
    using unsigned_less [of b] by simp
  then have "format_08b b = map (\<lambda>i. bit_char (bit (unat b) i)) (rev [0..<8])"
    unfolding format_08b_def Let_def by (rule pad_bin_digits) simp
  moreover have "rev [0..<8] = [7, 6, 5, 4, 3, 2, 1, 0::nat]"
    by (simp add: upt_rec)
  ultimately show ?thesis
    by (simp add: bit_unsigned_iff)
qed

lemma length_format_08b: "length (format_08b b) = 8"
  by (simp add: format_08b_bits)

lemma byte_hex_nibbles:
  "byte_hex b = [hexdigits ! (unat b div 16), hexdigits ! (unat b mod 16)]"
proof -
  have "unat (drop_bit 4 b) = unat b div 16"
    by (simp add: drop_bit_eq_div unat_div)
  moreover have "unat (b AND 0x0F) = unat b mod 16"
  proof -
    have "b AND 0x0F = b mod 16"
      by (simp add: take_bit_eq_mask mask_eq_exp_minus_1 flip: take_bit_eq_mod [of 4 b, simplified])
    then show ?thesis
      by (simp add: unat_mod)
  qed
  ultimately show ?thesis by (simp add: byte_hex_def)
qed

lemma foldl_append_concat:
  "foldl (\<lambda>result byte. result @ f byte) acc xs = acc @ concat (map f xs)"
  by (induction xs arbitrary: acc) simp_all

lemma oct_drop: "drop 2 (oct n) = oct_digits n"
  by (simp add: oct_def)

lemma length_concat_format:
  "length (concat (map format_08b bs)) = 8 * length bs"
  by (induction bs) (simp_all add: length_format_08b)

lemma bin_result:
  "foldl (\<lambda>result byte. result @ format_08b byte) ''0b'' (rev bits) =
   ''0b'' @ concat (map format_08b (rev bits))"
  by (rule foldl_append_concat)

lemma bits_to_string_BIN:
  "bits_to_string bits nb BIN = py_slice_to (''0b'' @ concat (map format_08b (rev bits))) (2 + nb)"
  by (simp add: bits_to_string_def Let_def bin_result)

lemma bits_to_string_BIN_length:
  assumes "0 \<le> nb" and "nb \<le> 8 * int (length bits)"
  shows "int (length (bits_to_string bits nb BIN)) = 2 + nb"
  using assms
  by (simp add: bits_to_string_BIN py_slice_to_def length_concat_format)

lemma bits_to_string_excess:
  assumes "8 * int (length bits) < nb"
  shows "bits_to_string bits nb radix = bits_to_string bits (8 * int (length bits)) radix"
    and "bits_to_string bits nb BIN = ''0b'' @ concat (map format_08b (rev bits))"
  using assms
  by (simp_all add: bits_to_string_def Let_def bin_result py_slice_to_def length_concat_format)

text \<open>
  C5, as amended. For every byte string and every \<open>num_bits\<close>: with radix HEX the
  rendering is \<^verbatim>\<open>0x\<close> and two lowercase hex digits per byte, in the order of the bytes;
  with radix BIN it is \<^verbatim>\<open>0b\<close> and the eight binary digits of each byte, most significant
  digit first, over the bytes in reversed order, cut by the slice \<^verbatim>\<open>[:2 + num_bits]\<close>, which
  has exactly \<open>2 + num_bits\<close> characters when \<open>0 \<le> num_bits \<le> 8 * len(bits)\<close>; with
  radix OCT it is \<^verbatim>\<open>0o\<close> and the octal digits of the bytes read as a little-endian
  number; with every other radix it is the HEX rendering.
\<close>

theorem bits_to_string_rendering:
  "bits_to_string bits nb HEX =
     ''0x'' @ concat (map (\<lambda>b. [hexdigits ! (unat b div 16), hexdigits ! (unat b mod 16)]) bits) \<and>
   bits_to_string bits nb BIN =
     py_slice_to
       (''0b'' @ concat (map (\<lambda>b. map (\<lambda>i. bit_char (bit b i)) [7, 6, 5, 4, 3, 2, 1, 0]) (rev bits)))
       (2 + nb) \<and>
   (0 \<le> nb \<and> nb \<le> 8 * int (length bits) \<longrightarrow>
      int (length (bits_to_string bits nb BIN)) = 2 + nb) \<and>
   bits_to_string bits nb OCT = ''0o'' @ oct_digits (from_bytes_little bits) \<and>
   (radix \<noteq> HEX \<and> radix \<noteq> BIN \<and> radix \<noteq> OCT \<longrightarrow>
      bits_to_string bits nb radix = bits_to_string bits nb HEX)"
proof -
  have hex: "bytes_hex bits =
      concat (map (\<lambda>b. [hexdigits ! (unat b div 16), hexdigits ! (unat b mod 16)]) bits)"
  proof -
    have "byte_hex = (\<lambda>b. [hexdigits ! (unat b div 16), hexdigits ! (unat b mod 16)])"
      by (rule ext) (rule byte_hex_nibbles)
    then show ?thesis
      by (simp only: bytes_hex_def)
  qed
  have bin: "map format_08b (rev bits) =
      map (\<lambda>b. map (\<lambda>i. bit_char (bit b i)) [7, 6, 5, 4, 3, 2, 1, 0]) (rev bits)"
  proof -
    have "format_08b = (\<lambda>b. map (\<lambda>i. bit_char (bit b i)) [7, 6, 5, 4, 3, 2, 1, 0])"
      by (rule ext) (rule format_08b_bits)
    then show ?thesis
      by (simp only:)
  qed
  have 1: "bits_to_string bits nb HEX =
     ''0x'' @ concat (map (\<lambda>b. [hexdigits ! (unat b div 16), hexdigits ! (unat b mod 16)]) bits)"
    by (simp add: bits_to_string_def hex)
  have 2: "bits_to_string bits nb BIN =
     py_slice_to
       (''0b'' @ concat (map (\<lambda>b. map (\<lambda>i. bit_char (bit b i)) [7, 6, 5, 4, 3, 2, 1, 0]) (rev bits)))
       (2 + nb)"
    by (simp only: bits_to_string_BIN bin)
  have 3: "0 \<le> nb \<and> nb \<le> 8 * int (length bits) \<longrightarrow>
      int (length (bits_to_string bits nb BIN)) = 2 + nb"
    by (simp add: bits_to_string_BIN_length)
  have 4: "bits_to_string bits nb OCT = ''0o'' @ oct_digits (from_bytes_little bits)"
    by (simp add: bits_to_string_def Let_def oct_drop)
  have 5: "radix \<noteq> HEX \<and> radix \<noteq> BIN \<and> radix \<noteq> OCT \<longrightarrow>
      bits_to_string bits nb radix = bits_to_string bits nb HEX"
    by (simp add: bits_to_string_def)
  from 1 2 3 4 5 show ?thesis
    by blast
qed

theorem bits_to_string_rendering_witness:
  "(0::int) \<le> 5 \<and> (5::int) \<le> 8 * int (length [0xCA, 0xFE :: byte]) \<and>
   int (length (bits_to_string [0xCA, 0xFE] 5 BIN)) = 7 \<and>
   bits_to_string [0xCA, 0xFE] 5 BIN = ''0b11111'' \<and>
   DEC \<noteq> HEX \<and> DEC \<noteq> BIN \<and> DEC \<noteq> OCT \<and>
   bits_to_string [0xCA, 0xFE] 5 DEC = ''0xcafe''"
proof -
  have h: "(0::int) \<le> 5 \<and> (5::int) \<le> 8 * int (length [0xCA, 0xFE :: byte])"
    by simp
  have r: "DEC \<noteq> HEX \<and> DEC \<noteq> BIN \<and> DEC \<noteq> OCT"
    by simp
  have v: "bits_to_string [0xCA, 0xFE] 5 BIN = ''0b11111''"
    and x: "bits_to_string [0xCA, 0xFE] 5 HEX = ''0xcafe''"
    by code_simp+
  from bits_to_string_rendering [of "[0xCA, 0xFE]" 5 DEC] h r
  have "int (length (bits_to_string [0xCA, 0xFE] 5 BIN)) = 2 + 5"
    and "bits_to_string [0xCA, 0xFE] 5 DEC = bits_to_string [0xCA, 0xFE] 5 HEX"
    by blast+
  with h r v x show ?thesis
    by simp
qed

text \<open>
  The claim as first stated fails twice: the OCT rendering of the byte 8 is \<^verbatim>\<open>0o10\<close>, not
  the HEX rendering \<^verbatim>\<open>0x08\<close>; and the BIN rendering of one byte with \<open>num_bits = 16\<close> has
  10 characters, not 18.
\<close>

theorem bits_to_string_claim_counterexample:
  "bits_to_string [8] 8 OCT = ''0o10'' \<and> bits_to_string [8] 8 HEX = ''0x08'' \<and>
   bits_to_string [8] 8 OCT \<noteq> bits_to_string [8] 8 HEX \<and>
   length (bits_to_string [0xCA] 16 BIN) = 10 \<and>
   length (bits_to_string [0xCA] 16 BIN) \<noteq> 2 + 16"
proof -
  have a: "bits_to_string [8] 8 OCT = ''0o10''"
    and b: "bits_to_string [8] 8 HEX = ''0x08''"
    and c: "bits_to_string [0xCA] 16 BIN = ''0b11001010''"
    by code_simp+
  show ?thesis
    unfolding a b c by simp
qed

lemma add_bits_eq:
  "add_bits t name bits nb radix h =
     h\<lparr>transactions := (transactions h)(t := (transactions h t)
         \<lparr>txn_attributes := txn_attributes (transactions h t) @
            [\<lparr>an_name = format_name name radix,
              an_value = String_value (bits_to_string bits nb radix)\<rparr>]\<rparr>)\<rparr>"
  by (simp add: add_bits_def add_attr_def upd_txn_def)

text \<open>
  C6, as amended. A call of \<^verbatim>\<open>add_bits\<close> whose \<open>num_bits\<close> exceeds eight times the number
  of bytes does not fail: it appends one attribute, named with the radix suffix, whose
  value is the rendering of all the bytes, the same string as for
  \<open>num_bits = 8 * len(bits)\<close> (for BIN all \<open>8 * len(bits)\<close> digits, uncut); nothing else in
  the heap changes.
\<close>

theorem add_bits_accepts_excess_num_bits:
  assumes "8 * int (length bits) < nb"
  shows "let h' = add_bits t name bits nb radix h in
           transactions h' = (transactions h)(t := (transactions h t)
             \<lparr>txn_attributes := txn_attributes (transactions h t) @
                [\<lparr>an_name = format_name name radix,
                  an_value = String_value
                    (bits_to_string bits (8 * int (length bits)) radix)\<rparr>]\<rparr>) \<and>
           traces h' = traces h \<and> streams h' = streams h \<and> next_ref h' = next_ref h \<and>
           bits_to_string bits nb BIN = ''0b'' @ concat (map format_08b (rev bits))"
  using bits_to_string_excess(1) [OF assms, of radix] bits_to_string_excess(2) [OF assms]
  by (simp add: Let_def add_bits_eq)

theorem add_bits_accepts_excess_num_bits_witness:
  "8 * int (length [0xFF :: byte]) < 9 \<and>
   txn_attributes (transactions (add_bits 2 ''d'' [0xFF] 9 HEX example_open) 2) =
     [\<lparr>an_name = ''addr[hex]'', an_value = Uint_value 16\<rparr>,
      \<lparr>an_name = ''d[hex]'', an_value = String_value ''0xff''\<rparr>]"
proof -
  have h: "8 * int (length [0xFF :: byte]) < 9"
    by simp
  have v: "bits_to_string [0xFF] (8 * int (length [0xFF :: byte])) HEX = ''0xff''"
    by code_simp
  have n: "format_name ''d'' HEX = ''d[hex]''"
    by code_simp
  from add_bits_accepts_excess_num_bits [OF h, of 2 "''d''" HEX example_open]
  have "transactions (add_bits 2 ''d'' [0xFF] 9 HEX example_open) 2 =
      (transactions example_open 2)
        \<lparr>txn_attributes := txn_attributes (transactions example_open 2) @
           [\<lparr>an_name = format_name ''d'' HEX,
             an_value = String_value
               (bits_to_string [0xFF] (8 * int (length [0xFF :: byte])) HEX)\<rparr>]\<rparr>"
    unfolding Let_def by simp
  then show ?thesis
    unfolding v n using h by (simp add: example_open_txn)
qed

text \<open>
  The claim as first stated fails: with one byte and \<open>num_bits = 16\<close> the call returns and
  the attribute \<^verbatim>\<open>v[bin]\<close> with value \<^verbatim>\<open>0b11001010\<close> is stored.
\<close>

theorem add_bits_excess_counterexample:
  "8 * int (length [0xCA :: byte]) < 16 \<and>
   txn_attributes (transactions (add_bits 2 ''v'' [0xCA] 16 BIN example_open) 2) =
     [\<lparr>an_name = ''addr[hex]'', an_value = Uint_value 16\<rparr>,
      \<lparr>an_name = ''v[bin]'', an_value = String_value ''0b11001010''\<rparr>]"
proof -
  have v: "bits_to_string [0xCA] 16 BIN = ''0b11001010''"
    by code_simp
  have n: "format_name ''v'' BIN = ''v[bin]''"
    by code_simp
  show ?thesis
    unfolding add_bits_eq v n by (simp add: example_open_txn)
qed

section \<open>Links\<close>

lemma add_link_eq:
  "add_link a (PyPerfettoTransaction b) lt rn h =
     (Inr (),
      upd_txn b (\<lambda>t. t\<lparr>txn_flow_ids := txn_flow_ids t @ [next_flow_id (traces h (trace_of h a))]\<rparr>)
       (upd_txn a (\<lambda>t. t\<lparr>txn_flow_ids := txn_flow_ids t @ [next_flow_id (traces h (trace_of h a))]\<rparr>)
         (upd_trace (trace_of h a) (\<lambda>tr. tr\<lparr>next_flow_id := next_flow_id tr + 1\<rparr>) h)))"
  by (simp add: add_link_def on_trace_def allocate_flow_id_def Let_def upd_trace_def)

text \<open>
  C8. \<^verbatim>\<open>A.add_link(B)\<close> takes one identifier \<open>f\<close> from the flow allocator of \<open>A\<close>'s trace,
  whose counter goes up by one, and appends \<open>f\<close> to the flow-id list of \<open>A\<close> and to the
  flow-id list of \<open>B\<close>; nothing else is added to either list and no other field, other
  transaction, stream or file changes. When \<open>A\<close> and \<open>B\<close> are one transaction the two
  appends land on the same list, which then ends with \<open>f, f\<close>. The link kind and the
  relation name have no effect on the result.
\<close>

theorem add_link_shares_one_flow_id:
  "(let r = trace_of h a; f = next_flow_id (traces h r);
        (res, h') = add_link a (PyPerfettoTransaction b) lt rn h in
      res = Inr () \<and>
      traces h' = (traces h)(r := (traces h r)\<lparr>next_flow_id := f + 1\<rparr>) \<and>
      (a \<noteq> b \<longrightarrow>
         transactions h' a = (transactions h a)\<lparr>txn_flow_ids := txn_flow_ids (transactions h a) @ [f]\<rparr> \<and>
         transactions h' b = (transactions h b)\<lparr>txn_flow_ids := txn_flow_ids (transactions h b) @ [f]\<rparr>) \<and>
      (a = b \<longrightarrow>
         transactions h' a = (transactions h a)\<lparr>txn_flow_ids := txn_flow_ids (transactions h a) @ [f, f]\<rparr>) \<and>
      (\<forall>t. t \<noteq> a \<and> t \<noteq> b \<longrightarrow> transactions h' t = transactions h t) \<and>
      streams h' = streams h \<and> next_ref h' = next_ref h) \<and>
   add_link a (PyPerfettoTransaction b) lt rn h = add_link a (PyPerfettoTransaction b) lt' rn' h"
  by (simp add: add_link_eq Let_def upd_txn_def upd_trace_def)


lemma example_pair_facts:
  "trace_of example_pair 2 = 0"
  "next_flow_id (traces example_pair 0) = 1"
  "txn_flow_ids (transactions example_pair 2) = []"
  "txn_flow_ids (transactions example_pair 3) = []"
  by (simp_all add: example_pair_def api_defs Let_def)

theorem add_link_shares_one_flow_id_witness:
  "(2::nat) \<noteq> 3 \<and>
   (let (res, h') = add_link 2 (PyPerfettoTransaction 3) CAUSE_EFFECT None example_pair in
      res = Inr () \<and> next_flow_id (traces h' 0) = 2 \<and>
      txn_flow_ids (transactions h' 2) = [1] \<and> txn_flow_ids (transactions h' 3) = [1]) \<and>
   (let (res, h') = add_link 2 (PyPerfettoTransaction 2) RELATED None example_pair in
      txn_flow_ids (transactions h' 2) = [1, 1])"
proof -
  have ne: "(2::nat) \<noteq> 3"
    by simp
  obtain res1 h1
    where e1: "add_link 2 (PyPerfettoTransaction 3) CAUSE_EFFECT None example_pair = (res1, h1)"
    by (cases "add_link 2 (PyPerfettoTransaction 3) CAUSE_EFFECT None example_pair")
  obtain res2 h2
    where e2: "add_link 2 (PyPerfettoTransaction 2) RELATED None example_pair = (res2, h2)"
    by (cases "add_link 2 (PyPerfettoTransaction 2) RELATED None example_pair")
  from add_link_shares_one_flow_id [of example_pair 2 3 CAUSE_EFFECT None CAUSE_EFFECT None] ne e1
  have a: "res1 = Inr () \<and> next_flow_id (traces h1 0) = 2 \<and>
      txn_flow_ids (transactions h1 2) = [1] \<and> txn_flow_ids (transactions h1 3) = [1]"
    by (simp add: Let_def example_pair_facts)
  from add_link_shares_one_flow_id [of example_pair 2 2 RELATED None RELATED None] e2
  have b: "txn_flow_ids (transactions h2 2) = [1, 1]"
    by (simp add: Let_def example_pair_facts)
  from ne a b show ?thesis
    by (simp add: e1 e2)
qed

lemmas begin_defs = begin_transaction_def transaction_init_def on_trace_def
  allocate_transaction_id_def allocate_track_uuid_def upd_stream_def upd_txn_def upd_trace_def
  emit_child_track_descriptor_def child_track_descriptor_packet_def write_packet_def trace_of_def
  Let_def

section \<open>Opening a transaction\<close>

text \<open>
  C3. On an open stream, a transaction begun without a parent gets the track of its
  stream; no track counter and no file changes. A transaction begun with a parent (an
  existing transaction) gets the next track identifier of the trace of its stream, the
  counter goes up by one, and exactly one packet is appended to the file of that trace
  during the call: a track descriptor with timestamp 0, the new track, the name of the
  transaction and, as parent track, the track of the parent transaction. The new track
  differs from the stream's track whenever that track was allocated before.
\<close>

theorem begin_transaction_track:
  assumes "stream_is_open (streams h s)"
  shows "(\<not> truthy parent \<longrightarrow>
           (let (res, h') = begin_transaction s name start ty parent h; t = next_ref h in
              res = Inr t \<and>
              txn_parent (transactions h' t) = None \<and>
              txn_track_uuid (transactions h' t) = stream_track_uuid (streams h s) \<and>
              (\<forall>r. next_track_uuid (traces h' r) = next_track_uuid (traces h r)) \<and>
              (\<forall>r. trace_file (traces h' r) = trace_file (traces h r)))) \<and>
         (p \<noteq> next_ref h \<longrightarrow>
           (let (res, h') = begin_transaction s name start ty (PyPerfettoTransaction p) h;
                t = next_ref h; r = stream_trace (streams h s); u = next_track_uuid (traces h r) in
              res = Inr t \<and>
              txn_parent (transactions h' t) = Some p \<and>
              txn_track_uuid (transactions h' t) = u \<and>
              next_track_uuid (traces h' r) = u + 1 \<and>
              trace_file (traces h' r) = trace_file (traces h r) @
                [\<lparr>timestamp = 0,
                  data = Track_descriptor u name (Some (txn_track_uuid (transactions h p)))\<rparr>] \<and>
              (\<forall>r'. r' \<noteq> r \<longrightarrow> trace_file (traces h' r') = trace_file (traces h r')) \<and>
              (stream_track_uuid (streams h s) < u \<longrightarrow>
                 txn_track_uuid (transactions h' t) \<noteq> stream_track_uuid (streams h s))))"
proof -
  have root: "\<not> truthy parent \<longrightarrow>
           (let (res, h') = begin_transaction s name start ty parent h; t = next_ref h in
              res = Inr t \<and>
              txn_parent (transactions h' t) = None \<and>
              txn_track_uuid (transactions h' t) = stream_track_uuid (streams h s) \<and>
              (\<forall>r. next_track_uuid (traces h' r) = next_track_uuid (traces h r)) \<and>
              (\<forall>r. trace_file (traces h' r) = trace_file (traces h r)))"
    using assms by (cases parent) (simp_all add: begin_defs)
  have child: "p \<noteq> next_ref h \<longrightarrow>
           (let (res, h') = begin_transaction s name start ty (PyPerfettoTransaction p) h;
                t = next_ref h; r = stream_trace (streams h s); u = next_track_uuid (traces h r) in
              res = Inr t \<and>
              txn_parent (transactions h' t) = Some p \<and>
              txn_track_uuid (transactions h' t) = u \<and>
              next_track_uuid (traces h' r) = u + 1 \<and>
              trace_file (traces h' r) = trace_file (traces h r) @
                [\<lparr>timestamp = 0,
                  data = Track_descriptor u name (Some (txn_track_uuid (transactions h p)))\<rparr>] \<and>
              (\<forall>r'. r' \<noteq> r \<longrightarrow> trace_file (traces h' r') = trace_file (traces h r')) \<and>
              (stream_track_uuid (streams h s) < u \<longrightarrow>
                 txn_track_uuid (transactions h' t) \<noteq> stream_track_uuid (streams h s)))"
    using assms by (simp add: begin_defs)
  from root child show ?thesis
    by blast
qed

text \<open>
  The outcomes of \<^verbatim>\<open>begin_transaction\<close>, case by case. It raises in two cases only: the
  stream is closed (RuntimeError, and nothing changes), or the stream is open and the
  parent is a true object that is not a \<^verbatim>\<open>PerfettoTransaction\<close> (TypeError; no transaction
  is created, but the transaction identifier allocated before the check is spent). In
  every other case, whatever stream or trace a parent transaction belongs to, it returns a
  new open transaction with the next transaction identifier, appended to the list of the
  stream.
\<close>

lemma begin_transaction_outcomes:
  "(fst (begin_transaction s name start ty parent h) = Inl RuntimeError \<longleftrightarrow>
      \<not> stream_is_open (streams h s)) \<and>
   (fst (begin_transaction s name start ty parent h) = Inl TypeError \<longleftrightarrow>
      stream_is_open (streams h s) \<and> parent = PyOther True) \<and>
   (\<not> stream_is_open (streams h s) \<longrightarrow>
      snd (begin_transaction s name start ty parent h) = h) \<and>
   (stream_is_open (streams h s) \<and> parent = PyOther True \<longrightarrow>
      (let h' = snd (begin_transaction s name start ty parent h);
           r = stream_trace (streams h s) in
         transactions h' = transactions h \<and> streams h' = streams h \<and>
         next_ref h' = next_ref h \<and>
         next_transaction_id (traces h' r) = next_transaction_id (traces h r) + 1)) \<and>
   (stream_is_open (streams h s) \<and> parent \<noteq> PyOther True \<longrightarrow>
      (let (res, h') = begin_transaction s name start ty parent h;
           r = stream_trace (streams h s) in
         res = Inr (next_ref h) \<and>
         next_ref h' = Suc (next_ref h) \<and>
         txn_id (transactions h' (next_ref h)) = next_transaction_id (traces h r) \<and>
         next_transaction_id (traces h' r) = next_transaction_id (traces h r) + 1 \<and>
         txn_stream (transactions h' (next_ref h)) = s \<and>
         txn_is_open (transactions h' (next_ref h)) \<and>
         stream_transactions (streams h' s) = stream_transactions (streams h s) @ [next_ref h]))"
proof (cases parent)
  case PyNone
  then show ?thesis by (simp add: begin_defs)
next
  case (PyPerfettoTransaction p)
  then show ?thesis by (simp add: begin_defs)
next
  case (PyOther b)
  then show ?thesis by (cases b) (simp_all add: begin_defs)
qed


section \<open>Closing a stream\<close>

lemma close_open_transactions_ok:
  assumes "distinct ts" and "\<forall>t \<in> set ts. txn_stream (transactions h t) = s"
    and "\<forall>t \<in> set ts. txn_is_open (transactions h t) \<longrightarrow>
           uint64_ok (txn_start_time (transactions h t))"
  shows "fst (close_open_transactions ts h) = Inr () \<and>
         streams (snd (close_open_transactions ts h)) = streams h \<and>
         next_ref (snd (close_open_transactions ts h)) = next_ref h \<and>
         transactions (snd (close_open_transactions ts h)) =
           (\<lambda>t. if t \<in> set ts \<and> txn_is_open (transactions h t)
                then closed_txn (transactions h t) (txn_start_time (transactions h t))
                else transactions h t) \<and>
         traces (snd (close_open_transactions ts h)) =
           (traces h)(stream_trace (streams h s) := (traces h (stream_trace (streams h s)))
              \<lparr>trace_file := trace_file (traces h (stream_trace (streams h s))) @
                 concat (map (forced_slice h) (filter (\<lambda>t. txn_is_open (transactions h t)) ts))\<rparr>)"
  using assms
proof (induction ts arbitrary: h)
  case Nil
  then show ?case by simp
next
  case (Cons t ts)
  have own: "txn_stream (transactions h t) = s"
    using Cons.prems by simp
  have d: "distinct ts" and nt: "t \<notin> set ts"
    using Cons.prems by simp_all
  show ?case
  proof (cases "txn_is_open (transactions h t)")
    case True
    with Cons.prems have ok: "uint64_ok (txn_start_time (transactions h t))"
      by simp
    define h1 where "h1 =
      h\<lparr>transactions := (transactions h)(t :=
           closed_txn (transactions h t) (txn_start_time (transactions h t))),
        traces := (traces h)(stream_trace (streams h s) := (traces h (stream_trace (streams h s)))
           \<lparr>trace_file := trace_file (traces h (stream_trace (streams h s))) @ forced_slice h t\<rparr>)\<rparr>"
    have c1: "transaction_close t (txn_start_time (transactions h t)) h = (Inr (), h1)"
      using own
      by (simp add: transaction_close_open [OF True ok ok] h1_def forced_slice_def Let_def
          trace_of_def)
    from True c1 have step: "close_open_transactions (t # ts) h = close_open_transactions ts h1"
      by (simp add: is_open_def)
    have same: "\<forall>t' \<in> set ts. transactions h1 t' = transactions h t'"
      using nt by (auto simp: h1_def)
    with Cons.prems have own1: "\<forall>t' \<in> set ts. txn_stream (transactions h1 t') = s"
      and ok1: "\<forall>t' \<in> set ts. txn_is_open (transactions h1 t') \<longrightarrow>
           uint64_ok (txn_start_time (transactions h1 t'))"
      by simp_all
    have st: "streams h1 = streams h" and nr: "next_ref h1 = next_ref h"
      by (simp_all add: h1_def)
    have fs: "map (forced_slice h1) (filter (\<lambda>t. txn_is_open (transactions h1 t)) ts) =
        map (forced_slice h) (filter (\<lambda>t. txn_is_open (transactions h t)) ts)"
    proof -
      have "filter (\<lambda>t. txn_is_open (transactions h1 t)) ts =
          filter (\<lambda>t. txn_is_open (transactions h t)) ts"
        using same by (intro filter_cong) simp_all
      moreover have "map (forced_slice h1) (filter (\<lambda>t. txn_is_open (transactions h t)) ts) =
          map (forced_slice h) (filter (\<lambda>t. txn_is_open (transactions h t)) ts)"
        using same by (intro map_cong) (simp_all add: forced_slice_def)
      ultimately show ?thesis by simp
    qed
    from Cons.IH [OF d own1 ok1]
    have ih: "fst (close_open_transactions ts h1) = Inr ()"
      "streams (snd (close_open_transactions ts h1)) = streams h1"
      "next_ref (snd (close_open_transactions ts h1)) = next_ref h1"
      "transactions (snd (close_open_transactions ts h1)) =
           (\<lambda>t. if t \<in> set ts \<and> txn_is_open (transactions h1 t)
                then closed_txn (transactions h1 t) (txn_start_time (transactions h1 t))
                else transactions h1 t)"
      "traces (snd (close_open_transactions ts h1)) =
           (traces h1)(stream_trace (streams h1 s) := (traces h1 (stream_trace (streams h1 s)))
              \<lparr>trace_file := trace_file (traces h1 (stream_trace (streams h1 s))) @
                 concat (map (forced_slice h1) (filter (\<lambda>t. txn_is_open (transactions h1 t)) ts))\<rparr>)"
      by blast+
    have tx: "transactions (snd (close_open_transactions (t # ts) h)) =
           (\<lambda>t'. if t' \<in> set (t # ts) \<and> txn_is_open (transactions h t')
                then closed_txn (transactions h t') (txn_start_time (transactions h t'))
                else transactions h t')"
    proof (rule ext)
      fix t'
      show "transactions (snd (close_open_transactions (t # ts) h)) t' =
           (if t' \<in> set (t # ts) \<and> txn_is_open (transactions h t')
                then closed_txn (transactions h t') (txn_start_time (transactions h t'))
                else transactions h t')"
      proof (cases "t' = t")
        case True
        with nt \<open>txn_is_open (transactions h t)\<close> show ?thesis
          unfolding step by (simp add: ih(4)) (simp add: h1_def)
      next
        case False
        then have "transactions h1 t' = transactions h t'"
          by (simp add: h1_def)
        with False show ?thesis
          unfolding step by (simp add: ih(4))
      qed
    qed
    have tr: "traces (snd (close_open_transactions (t # ts) h)) =
           (traces h)(stream_trace (streams h s) := (traces h (stream_trace (streams h s)))
              \<lparr>trace_file := trace_file (traces h (stream_trace (streams h s))) @
                 concat (map (forced_slice h)
                   (filter (\<lambda>t. txn_is_open (transactions h t)) (t # ts)))\<rparr>)"
      using True unfolding step by (simp add: ih(5) fs st) (simp add: h1_def)
    from tx tr ih(1,2,3) st nr show ?thesis
      unfolding step by simp
  next
    case False
    then have step: "close_open_transactions (t # ts) h = close_open_transactions ts h"
      by (simp add: is_open_def)
    from Cons.prems have own1: "\<forall>t' \<in> set ts. txn_stream (transactions h t') = s"
      and ok1: "\<forall>t' \<in> set ts. txn_is_open (transactions h t') \<longrightarrow>
           uint64_ok (txn_start_time (transactions h t'))"
      by simp_all
    from Cons.IH [OF d own1 ok1] False show ?thesis
      unfolding step by auto
  qed
qed

lemma forced_slice_packets:
  "forced_slice h t =
     [\<lparr>timestamp = txn_start_time (transactions h t),
       data = Track_event
         \<lparr>ev_type = TYPE_SLICE_BEGIN, ev_track_uuid = txn_track_uuid (transactions h t),
          ev_name = Some (txn_name (transactions h t)),
          ev_categories =
            (case txn_type_name (transactions h t) of
               Some ty \<Rightarrow> if ty \<noteq> [] then [ty] else []
             | None \<Rightarrow> []),
          ev_debug_annotations = txn_attributes (transactions h t),
          ev_flow_ids = txn_flow_ids (transactions h t)\<rparr>\<rparr>,
      \<lparr>timestamp = txn_start_time (transactions h t),
       data = Track_event
         \<lparr>ev_type = TYPE_SLICE_END, ev_track_uuid = txn_track_uuid (transactions h t),
          ev_name = None, ev_categories = [], ev_debug_annotations = [],
          ev_flow_ids = txn_flow_ids (transactions h t)\<rparr>\<rparr>]"
  by (simp add: forced_slice_def Let_def closed_txn_def slice_begin_packet_def slice_end_packet_def)

lemma length_concat_forced: "length (concat (map (forced_slice h) ts)) = 2 * length ts"
  by (induction ts) (simp_all add: forced_slice_def Let_def)

lemma stream_close_closed:
  "\<not> stream_is_open (streams h s) \<Longrightarrow> stream_close s h = (Inr (), h)"
  by (simp add: stream_close_def)

text \<open>The start times of the open transactions a stream lists are in the range of a timestamp.\<close>

lemma stream_close_open:
  assumes "stream_is_open (streams h s)" and "stream_owns h s"
    and "\<forall>t \<in> set (stream_transactions (streams h s)).
           txn_is_open (transactions h t) \<longrightarrow> uint64_ok (txn_start_time (transactions h t))"
  shows "fst (stream_close s h) = Inr ()"
    and "streams (snd (stream_close s h)) =
           (streams h)(s := (streams h s)\<lparr>stream_is_open := False\<rparr>)"
    and "next_ref (snd (stream_close s h)) = next_ref h"
    and "transactions (snd (stream_close s h)) =
           (\<lambda>t. if t \<in> set (stream_transactions (streams h s)) \<and> txn_is_open (transactions h t)
                then closed_txn (transactions h t) (txn_start_time (transactions h t))
                else transactions h t)"
    and "traces (snd (stream_close s h)) =
           (traces h)(stream_trace (streams h s) := (traces h (stream_trace (streams h s)))
              \<lparr>trace_file := trace_file (traces h (stream_trace (streams h s))) @
                 concat (map (forced_slice h)
                   (filter (\<lambda>t. txn_is_open (transactions h t))
                     (stream_transactions (streams h s))))\<rparr>)"
proof -
  from assms(2) have d: "distinct (stream_transactions (streams h s))"
    and o: "\<forall>t \<in> set (stream_transactions (streams h s)). txn_stream (transactions h t) = s"
    by (simp_all add: stream_owns_def list_all_iff)
  note f = close_open_transactions_ok [OF d o assms(3)]
  obtain res h1
    where c: "close_open_transactions (stream_transactions (streams h s)) h = (res, h1)"
    by (cases "close_open_transactions (stream_transactions (streams h s)) h")
  with f have r: "res = Inr ()"
    by simp
  from assms(1) c r have sc: "stream_close s h =
      (Inr (), upd_stream s (\<lambda>s. s\<lparr>stream_is_open := False\<rparr>) h1)"
    by (simp add: stream_close_def)
  from sc show "fst (stream_close s h) = Inr ()"
    by simp
  from f c show
    "streams (snd (stream_close s h)) = (streams h)(s := (streams h s)\<lparr>stream_is_open := False\<rparr>)"
    unfolding sc by (simp add: upd_stream_def)
  from f c show "next_ref (snd (stream_close s h)) = next_ref h"
    unfolding sc by (simp add: upd_stream_def)
  from f c show "transactions (snd (stream_close s h)) =
           (\<lambda>t. if t \<in> set (stream_transactions (streams h s)) \<and> txn_is_open (transactions h t)
                then closed_txn (transactions h t) (txn_start_time (transactions h t))
                else transactions h t)"
    unfolding sc by (simp add: upd_stream_def)
  from f c show "traces (snd (stream_close s h)) =
           (traces h)(stream_trace (streams h s) := (traces h (stream_trace (streams h s)))
              \<lparr>trace_file := trace_file (traces h (stream_trace (streams h s))) @
                 concat (map (forced_slice h)
                   (filter (\<lambda>t. txn_is_open (transactions h t))
                     (stream_transactions (streams h s))))\<rparr>)"
    unfolding sc by (simp add: upd_stream_def)
qed

text \<open>
  C4, as amended. Let an open stream list \<open>N\<close> transactions that are still open (its list
  holding pairwise different transactions that belong to it), each with a start time in
  the unsigned 64-bit range. \<^verbatim>\<open>close()\<close> returns without an exception, closes each of the
  \<open>N\<close> with its own start time as end time, leaves every other transaction as it was,
  appends to the file of the stream's trace, in list order, the \<open>2N\<close> packets of their
  slices, each slice-begin and slice-end carrying the start time as timestamp (a slice of
  duration zero), and then marks the stream closed. On a stream that is already closed
  \<^verbatim>\<open>close()\<close> returns the heap as it was.
\<close>

theorem stream_close_forces_open_transactions:
  "(stream_is_open (streams h s) \<and> stream_owns h s \<and>
    (\<forall>t \<in> set (stream_transactions (streams h s)).
       txn_is_open (transactions h t) \<longrightarrow> uint64_ok (txn_start_time (transactions h t))) \<longrightarrow>
      (let (res, h') = stream_close s h;
           opn = filter (\<lambda>t. txn_is_open (transactions h t)) (stream_transactions (streams h s));
           r = stream_trace (streams h s) in
         res = Inr () \<and>
         \<not> stream_is_open (streams h' s) \<and>
         streams h' = (streams h)(s := (streams h s)\<lparr>stream_is_open := False\<rparr>) \<and>
         (\<forall>t \<in> set opn.
            transactions h' t =
              (transactions h t)\<lparr>txn_end_time := txn_start_time (transactions h t),
                                 txn_is_open := False\<rparr>) \<and>
         (\<forall>t. t \<notin> set opn \<longrightarrow> transactions h' t = transactions h t) \<and>
         trace_file (traces h' r) = trace_file (traces h r) @ concat (map (forced_slice h) opn) \<and>
         length (concat (map (forced_slice h) opn)) = 2 * length opn \<and>
         (\<forall>r'. r' \<noteq> r \<longrightarrow> traces h' r' = traces h r') \<and>
         next_ref h' = next_ref h)) \<and>
   forced_slice h t =
     [\<lparr>timestamp = txn_start_time (transactions h t),
       data = Track_event
         \<lparr>ev_type = TYPE_SLICE_BEGIN, ev_track_uuid = txn_track_uuid (transactions h t),
          ev_name = Some (txn_name (transactions h t)),
          ev_categories =
            (case txn_type_name (transactions h t) of
               Some ty \<Rightarrow> if ty \<noteq> [] then [ty] else []
             | None \<Rightarrow> []),
          ev_debug_annotations = txn_attributes (transactions h t),
          ev_flow_ids = txn_flow_ids (transactions h t)\<rparr>\<rparr>,
      \<lparr>timestamp = txn_start_time (transactions h t),
       data = Track_event
         \<lparr>ev_type = TYPE_SLICE_END, ev_track_uuid = txn_track_uuid (transactions h t),
          ev_name = None, ev_categories = [], ev_debug_annotations = [],
          ev_flow_ids = txn_flow_ids (transactions h t)\<rparr>\<rparr>] \<and>
   (\<not> stream_is_open (streams h s) \<longrightarrow> stream_close s h = (Inr (), h))"
proof -
  have a: "stream_is_open (streams h s) \<and> stream_owns h s \<and>
    (\<forall>t \<in> set (stream_transactions (streams h s)).
       txn_is_open (transactions h t) \<longrightarrow> uint64_ok (txn_start_time (transactions h t))) \<longrightarrow>
      (let (res, h') = stream_close s h;
           opn = filter (\<lambda>t. txn_is_open (transactions h t)) (stream_transactions (streams h s));
           r = stream_trace (streams h s) in
         res = Inr () \<and>
         \<not> stream_is_open (streams h' s) \<and>
         streams h' = (streams h)(s := (streams h s)\<lparr>stream_is_open := False\<rparr>) \<and>
         (\<forall>t \<in> set opn.
            transactions h' t =
              (transactions h t)\<lparr>txn_end_time := txn_start_time (transactions h t),
                                 txn_is_open := False\<rparr>) \<and>
         (\<forall>t. t \<notin> set opn \<longrightarrow> transactions h' t = transactions h t) \<and>
         trace_file (traces h' r) = trace_file (traces h r) @ concat (map (forced_slice h) opn) \<and>
         length (concat (map (forced_slice h) opn)) = 2 * length opn \<and>
         (\<forall>r'. r' \<noteq> r \<longrightarrow> traces h' r' = traces h r') \<and>
         next_ref h' = next_ref h)"
  proof
    assume "stream_is_open (streams h s) \<and> stream_owns h s \<and>
      (\<forall>t \<in> set (stream_transactions (streams h s)).
         txn_is_open (transactions h t) \<longrightarrow> uint64_ok (txn_start_time (transactions h t)))"
    then have op: "stream_is_open (streams h s)" and ow: "stream_owns h s"
      and rg: "\<forall>t \<in> set (stream_transactions (streams h s)).
         txn_is_open (transactions h t) \<longrightarrow> uint64_ok (txn_start_time (transactions h t))"
      by simp_all
    note sc = stream_close_open [OF op ow rg]
    obtain res h' where c: "stream_close s h = (res, h')"
      by (cases "stream_close s h")
    from sc c have r: "res = Inr ()"
      and st: "streams h' = (streams h)(s := (streams h s)\<lparr>stream_is_open := False\<rparr>)"
      and nr: "next_ref h' = next_ref h"
      and tx: "transactions h' =
           (\<lambda>t. if t \<in> set (stream_transactions (streams h s)) \<and> txn_is_open (transactions h t)
                then closed_txn (transactions h t) (txn_start_time (transactions h t))
                else transactions h t)"
      and tr: "traces h' =
           (traces h)(stream_trace (streams h s) := (traces h (stream_trace (streams h s)))
              \<lparr>trace_file := trace_file (traces h (stream_trace (streams h s))) @
                 concat (map (forced_slice h)
                   (filter (\<lambda>t. txn_is_open (transactions h t))
                     (stream_transactions (streams h s))))\<rparr>)"
      by simp_all
    show "let (res, h') = stream_close s h;
           opn = filter (\<lambda>t. txn_is_open (transactions h t)) (stream_transactions (streams h s));
           r = stream_trace (streams h s) in
         res = Inr () \<and>
         \<not> stream_is_open (streams h' s) \<and>
         streams h' = (streams h)(s := (streams h s)\<lparr>stream_is_open := False\<rparr>) \<and>
         (\<forall>t \<in> set opn.
            transactions h' t =
              (transactions h t)\<lparr>txn_end_time := txn_start_time (transactions h t),
                                 txn_is_open := False\<rparr>) \<and>
         (\<forall>t. t \<notin> set opn \<longrightarrow> transactions h' t = transactions h t) \<and>
         trace_file (traces h' r) = trace_file (traces h r) @ concat (map (forced_slice h) opn) \<and>
         length (concat (map (forced_slice h) opn)) = 2 * length opn \<and>
         (\<forall>r'. r' \<noteq> r \<longrightarrow> traces h' r' = traces h r') \<and>
         next_ref h' = next_ref h"
      unfolding c Let_def prod.case r st nr tx tr
      by (simp add: length_concat_forced closed_txn_def)
  qed
  have b: "\<not> stream_is_open (streams h s) \<longrightarrow> stream_close s h = (Inr (), h)"
    by (simp add: stream_close_closed)
  from a b forced_slice_packets [of h t] show ?thesis
    by blast
qed

lemmas ex_defs = example_child_def example_pair_def example_two_traces_def api_defs Let_def

lemma example_child_stream:
  "streams example_child 1 =
     \<lparr>stream_trace = 0, stream_track_uuid = 1, stream_name = ''bus'', stream_scope = None,
      stream_type_name = None, stream_is_open = True, stream_transactions = [2, 3, 4]\<rparr>"
  by (simp add: ex_defs)

lemma example_child_txns:
  "transactions example_child 2 =
     \<lparr>txn_id = 1, txn_stream = 1, txn_name = ''A'', txn_type_name = None,
      txn_start_time = 1000, txn_end_time = 0, txn_is_open = True, txn_parent = None,
      txn_attributes = [], txn_flow_ids = [], txn_track_uuid = 1\<rparr>"
  "transactions example_child 3 =
     \<lparr>txn_id = 2, txn_stream = 1, txn_name = ''B'', txn_type_name = Some ''rd'',
      txn_start_time = 2000, txn_end_time = 0, txn_is_open = True, txn_parent = None,
      txn_attributes = [], txn_flow_ids = [], txn_track_uuid = 1\<rparr>"
  "transactions example_child 4 =
     \<lparr>txn_id = 3, txn_stream = 1, txn_name = ''C'', txn_type_name = None,
      txn_start_time = 1100, txn_end_time = 0, txn_is_open = True, txn_parent = Some 2,
      txn_attributes = [], txn_flow_ids = [], txn_track_uuid = 2\<rparr>"
  by (simp_all add: ex_defs)

lemma example_child_trace:
  "traces example_child 0 =
     \<lparr>trace_filename = ''t.trace'', trace_name = ''S'', trace_time_units = ''1ns'',
      trace_file =
        [\<lparr>timestamp = 0, data = Clock_snapshot [(64, 0)]\<rparr>,
         \<lparr>timestamp = 0, data = Track_descriptor 1 ''bus'' None\<rparr>,
         \<lparr>timestamp = 0, data = Track_descriptor 2 ''C'' (Some 1)\<rparr>],
      trace_streams = [1], next_track_uuid = 3, next_transaction_id = 4, next_flow_id = 1,
      sequence_id = 1, clock_id = 64\<rparr>"
  "next_ref example_child = 5"
  by (simp_all add: ex_defs)

lemmas example_child_facts = example_child_stream example_child_stream [unfolded One_nat_def]
  example_child_txns example_child_trace

lemma example_child_owns: "stream_owns example_child 1"
  by (simp add: stream_owns_def example_child_facts)

lemma example_child_range:
  "\<forall>t \<in> set (stream_transactions (streams example_child 1)).
     txn_is_open (transactions example_child t) \<longrightarrow>
     uint64_ok (txn_start_time (transactions example_child t))"
  by (simp add: example_child_facts uint64_ok_def)

lemma example_closed_stream: "\<not> stream_is_open (streams example_closed 1)"
proof -
  have op: "stream_is_open (streams example_child 1)"
    by (simp add: example_child_facts)
  from stream_close_open(2) [OF op example_child_owns example_child_range] show ?thesis
    unfolding example_closed_def by (simp add: example_child_facts)
qed

theorem stream_close_forces_open_transactions_witness:
  "stream_is_open (streams example_child 1) \<and> stream_owns example_child 1 \<and>
   map (\<lambda>t. uint64_ok (txn_start_time (transactions example_child t))) [2, 3, 4] =
     [True, True, True] \<and>
   filter (\<lambda>t. txn_is_open (transactions example_child t))
     (stream_transactions (streams example_child 1)) = [2, 3, 4] \<and>
   fst (stream_close 1 example_child) = Inr () \<and>
   \<not> stream_is_open (streams (snd (stream_close 1 example_child)) 1) \<and>
   map (\<lambda>t. txn_is_open (transactions (snd (stream_close 1 example_child)) t)) [2, 3, 4] =
     [False, False, False] \<and>
   map (\<lambda>t. txn_end_time (transactions (snd (stream_close 1 example_child)) t)) [2, 3, 4] =
     [1000, 2000, 1100] \<and>
   map timestamp (trace_file (traces (snd (stream_close 1 example_child)) 0)) =
     [0, 0, 0, 1000, 1000, 2000, 2000, 1100, 1100] \<and>
   stream_close 1 (snd (stream_close 1 example_child)) =
     (Inr (), snd (stream_close 1 example_child))"
proof -
  have op: "stream_is_open (streams example_child 1)"
    by (simp add: example_child_facts)
  have ow: "stream_owns example_child 1"
    by (rule example_child_owns)
  note rg = example_child_range
  have f: "filter (\<lambda>t. txn_is_open (transactions example_child t))
     (stream_transactions (streams example_child 1)) = [2, 3, 4]"
    by (simp add: example_child_facts)
  obtain res h' where c: "stream_close 1 example_child = (res, h')"
    by (cases "stream_close 1 example_child")
  from stream_close_forces_open_transactions [of example_child 1] op ow rg c
  have r: "res = Inr ()"
    and cl: "\<not> stream_is_open (streams h' 1)"
    and tx: "\<forall>t \<in> set [2, 3, 4]. transactions h' t =
       (transactions example_child t)
         \<lparr>txn_end_time := txn_start_time (transactions example_child t), txn_is_open := False\<rparr>"
    and fl: "trace_file (traces h' 0) =
       trace_file (traces example_child 0) @
         concat (map (forced_slice example_child) [2, 3, 4])"
    unfolding Let_def f by (simp_all add: example_child_facts)
  from stream_close_forces_open_transactions [of example_child _ 2]
    stream_close_forces_open_transactions [of example_child _ 3]
    stream_close_forces_open_transactions [of example_child _ 4]
  have ts: "map timestamp (concat (map (forced_slice example_child) [2, 3, 4])) =
      [1000, 1000, 2000, 2000, 1100, 1100]"
    by (simp add: example_child_facts)
  from stream_close_forces_open_transactions [of h' 1] cl
  have idem: "stream_close 1 h' = (Inr (), h')"
    by simp
  have rg': "map (\<lambda>t. uint64_ok (txn_start_time (transactions example_child t))) [2, 3, 4] =
     [True, True, True]"
    by (simp add: example_child_facts uint64_ok_def)
  from op ow rg' f r cl tx fl ts idem show ?thesis
    unfolding c by (simp add: example_child_facts)
qed

text \<open>
  The claim as first stated fails: on the stream whose first open transaction was begun at
  \<open>-5\<close>, \<^verbatim>\<open>close()\<close> raises \<^verbatim>\<open>ValueError\<close> at that transaction. No slice is written, the
  second open transaction stays open, and the stream stays open.
\<close>

theorem stream_close_negative_start_counterexample:
  "stream_is_open (streams example_negative 1) \<and> stream_owns example_negative 1 \<and>
   filter (\<lambda>t. txn_is_open (transactions example_negative t))
     (stream_transactions (streams example_negative 1)) = [2, 3] \<and>
   fst (stream_close 1 example_negative) = Inl ValueError \<and>
   stream_is_open (streams (snd (stream_close 1 example_negative)) 1) \<and>
   txn_is_open (transactions (snd (stream_close 1 example_negative)) 3) \<and>
   trace_file (traces (snd (stream_close 1 example_negative)) 0) =
     trace_file (traces example_negative 0)"
proof -
  have o: "txn_is_open (transactions example_negative 2)"
    and s: "\<not> uint64_ok (txn_start_time (transactions example_negative 2))"
    by (simp_all add: example_negative_facts uint64_ok_def)
  have l: "stream_transactions (streams example_negative 1) = [2, 3]"
    and op: "stream_is_open (streams example_negative 1)"
    by (simp_all add: example_negative_facts)
  have ow: "stream_owns example_negative 1"
    by (simp add: stream_owns_def example_negative_facts l)
  have c: "stream_close 1 example_negative =
      (Inl ValueError,
       example_negative\<lparr>transactions := (transactions example_negative)(2 :=
          closed_txn (transactions example_negative 2)
            (txn_start_time (transactions example_negative 2)))\<rparr>)"
    using op o
    by (simp add: stream_close_def l [unfolded One_nat_def] is_open_def
        transaction_close_bad_start [OF o s])
  from op ow show ?thesis
    unfolding c by (simp add: l example_negative_facts)
qed

section \<open>Heaps reached by runs of the API\<close>

text \<open>
  Every call keeps \<open>heap_ok\<close>, and the empty heap has it. So in every heap that a run of
  calls produces, each stream lists pairwise different transactions of its own: the
  ownership condition under which closing a stream was described above holds wherever the
  API can take the heap.
\<close>

lemma heap_ok_iff:
  "heap_ok h \<longleftrightarrow>
     (\<forall>s. distinct (stream_transactions (streams h s)) \<and>
          (\<forall>t \<in> set (stream_transactions (streams h s)).
             txn_stream (transactions h t) = s \<and> t < next_ref h))"
  by (auto simp: heap_ok_def stream_owns_def list_all_iff)

lemma heap_ok_stream_owns: "heap_ok h \<Longrightarrow> stream_owns h s"
  by (simp add: heap_ok_def)

lemma heap_ok_empty: "heap_ok empty_heap"
  by (simp add: heap_ok_iff empty_heap_def blank_stream_def)

lemma heap_ok_trace_init: "heap_ok h \<Longrightarrow> heap_ok (snd (trace_init f n u h))"
  by (fastforce simp: heap_ok_iff trace_init_def emit_clock_snapshot_def upd_trace_def Let_def)

lemma heap_ok_create_stream: "heap_ok h \<Longrightarrow> heap_ok (snd (create_stream tr n sc ty h))"
  by (fastforce simp: heap_ok_iff create_stream_def stream_init_def on_trace_def
      allocate_track_uuid_def emit_track_descriptor_def upd_trace_def Let_def)

lemma heap_ok_begin_transaction:
  assumes "heap_ok h"
  shows "heap_ok (snd (begin_transaction s n st ty parent h))"
proof -
  from assms have d: "\<And>s'. distinct (stream_transactions (streams h s'))"
    and o: "\<And>s' t. t \<in> set (stream_transactions (streams h s')) \<Longrightarrow>
        txn_stream (transactions h t) = s'"
    and l: "\<And>s' t. t \<in> set (stream_transactions (streams h s')) \<Longrightarrow> t < next_ref h"
    by (simp_all add: heap_ok_iff)
  from l have fresh: "\<And>s'. next_ref h \<notin> set (stream_transactions (streams h s'))"
    by blast
  show ?thesis
  proof (cases "stream_is_open (streams h s)")
    case False
    with assms show ?thesis
      by (simp add: begin_transaction_def)
  next
    case True
    show ?thesis
    proof (cases parent)
      case PyNone
      with True d o l fresh show ?thesis
        unfolding heap_ok_iff by (auto simp: begin_defs less_Suc_eq)
    next
      case (PyPerfettoTransaction p)
      with True d o l fresh show ?thesis
        unfolding heap_ok_iff by (auto simp: begin_defs less_Suc_eq)
    next
      case (PyOther b)
      with True d o l fresh show ?thesis
        unfolding heap_ok_iff by (cases b) (auto simp: begin_defs less_Suc_eq)
    qed
  qed
qed

lemma transaction_close_frame:
  "streams (snd (transaction_close t e h)) = streams h"
  "next_ref (snd (transaction_close t e h)) = next_ref h"
  "txn_stream (transactions (snd (transaction_close t e h)) t') = txn_stream (transactions h t')"
  by (simp_all add: transaction_close_def emit_slice_begin_def emit_slice_end_def upd_txn_def
      upd_trace_def Let_def)

lemma close_open_transactions_frame:
  "streams (snd (close_open_transactions ts h)) = streams h \<and>
   next_ref (snd (close_open_transactions ts h)) = next_ref h \<and>
   (\<forall>t'. txn_stream (transactions (snd (close_open_transactions ts h)) t') =
      txn_stream (transactions h t'))"
proof (induction ts arbitrary: h)
  case Nil
  then show ?case by simp
next
  case (Cons t ts)
  let ?c = "transaction_close t (txn_start_time (transactions h t)) h"
  show ?case
  proof (cases "is_open h t")
    case False
    with Cons.IH [of h] show ?thesis by simp
  next
    case True
    show ?thesis
    proof (cases "fst ?c")
      case (Inl e)
      with True have "close_open_transactions (t # ts) h = (Inl e, snd ?c)"
        by (cases ?c) simp
      then show ?thesis
        by (simp add: transaction_close_frame)
    next
      case (Inr u)
      with True have "close_open_transactions (t # ts) h = close_open_transactions ts (snd ?c)"
        by (cases ?c) simp
      with Cons.IH [of "snd ?c"] show ?thesis
        by (simp add: transaction_close_frame)
    qed
  qed
qed

lemma stream_close_frame:
  "stream_transactions (streams (snd (stream_close s h)) s') = stream_transactions (streams h s')"
  "next_ref (snd (stream_close s h)) = next_ref h"
  "txn_stream (transactions (snd (stream_close s h)) t') = txn_stream (transactions h t')"
  using close_open_transactions_frame [of "stream_transactions (streams h s)" h]
  by (auto simp: stream_close_def upd_stream_def split: prod.splits sum.splits)

lemma heap_ok_transaction_close: "heap_ok h \<Longrightarrow> heap_ok (snd (transaction_close t e h))"
  by (simp add: heap_ok_iff transaction_close_frame)

lemma heap_ok_add_attr: "heap_ok h \<Longrightarrow> heap_ok (add_attr t a h)"
  by (auto simp: heap_ok_iff add_attr_def upd_txn_def)

lemma heap_ok_add_link: "heap_ok h \<Longrightarrow> heap_ok (snd (add_link t target k rel h))"
  by (cases target)
    (auto simp: heap_ok_iff add_link_def on_trace_def allocate_flow_id_def upd_txn_def Let_def)

lemma heap_ok_stream_close: "heap_ok h \<Longrightarrow> heap_ok (snd (stream_close s h))"
  by (simp add: heap_ok_iff stream_close_frame)

lemma heap_ok_run_call: "heap_ok h \<Longrightarrow> heap_ok (run_call c h)"
  by (cases c)
    (simp_all add: heap_ok_trace_init heap_ok_create_stream heap_ok_begin_transaction
      heap_ok_transaction_close heap_ok_add_attr heap_ok_add_link heap_ok_stream_close
      add_int_def add_uint_def add_string_def add_time_def add_bits_def add_blob_def)

lemma heap_ok_fold: "heap_ok h \<Longrightarrow> heap_ok (fold run_call cs h)"
  by (induction cs arbitrary: h) (simp_all add: heap_ok_run_call)

lemma heap_ok_run_calls: "heap_ok (run_calls cs)"
  unfolding run_calls_def by (rule heap_ok_fold) (rule heap_ok_empty)

lemma stream_owns_run_calls: "stream_owns (run_calls cs) s"
  by (rule heap_ok_stream_owns) (rule heap_ok_run_calls)


section \<open>Runs of the API\<close>

theorem begin_transaction_track_witness:
  "stream_is_open (streams example_child 1) \<and> \<not> truthy PyNone \<and>
   (4::nat) \<noteq> next_ref example_child \<and>
   (let (res, h') = begin_transaction 1 ''R'' 5 None PyNone example_child in
      res = Inr 5 \<and> txn_track_uuid (transactions h' 5) = 1 \<and>
      trace_file (traces h' 0) = trace_file (traces example_child 0)) \<and>
   (let (res, h') = begin_transaction 1 ''G'' 1200 None (PyPerfettoTransaction 4) example_child in
      res = Inr 5 \<and> txn_track_uuid (transactions h' 5) = 3 \<and>
      trace_file (traces h' 0) = trace_file (traces example_child 0) @
        [\<lparr>timestamp = 0, data = Track_descriptor 3 ''G'' (Some 2)\<rparr>])"
proof -
  have op: "stream_is_open (streams example_child 1)"
    by (simp add: example_child_facts)
  have nt: "\<not> truthy PyNone"
    by simp
  have ex: "(4::nat) \<noteq> next_ref example_child"
    by (simp add: example_child_facts)
  obtain res1 h1
    where e1: "begin_transaction 1 ''R'' 5 None PyNone example_child = (res1, h1)"
    by (cases "begin_transaction 1 ''R'' 5 None PyNone example_child")
  obtain res2 h2
    where e2: "begin_transaction 1 ''G'' 1200 None (PyPerfettoTransaction 4) example_child =
      (res2, h2)"
    by (cases "begin_transaction 1 ''G'' 1200 None (PyPerfettoTransaction 4) example_child")
  from begin_transaction_track [OF op, where parent = PyNone and name = "''R''" and start = 5
      and ty = None and p = 4] nt e1
  have a: "res1 = Inr 5 \<and> txn_track_uuid (transactions h1 5) = 1 \<and>
      trace_file (traces h1 0) = trace_file (traces example_child 0)"
    by (simp add: Let_def example_child_facts)
  from begin_transaction_track [OF op, where parent = PyNone and name = "''G''" and start = 1200
      and ty = None and p = 4] ex e2
  have b: "res2 = Inr 5 \<and> txn_track_uuid (transactions h2 5) = 3 \<and>
      trace_file (traces h2 0) = trace_file (traces example_child 0) @
        [\<lparr>timestamp = 0, data = Track_descriptor 3 ''G'' (Some 2)\<rparr>]"
    by (simp add: Let_def example_child_facts)
  from op nt ex a b show ?thesis
    unfolding e1 e2 by simp
qed

lemma example_foreign_facts:
  "stream_is_open (streams example_foreign 3)"
  "stream_trace (streams example_foreign 3) = 2"
  "stream_transactions (streams example_foreign 3) = []"
  "txn_stream (transactions example_foreign 5) = 1"
  "txn_track_uuid (transactions example_foreign 5) = 2"
  "trace_of example_foreign 5 = 0"
  "next_ref example_foreign = 6"
  "next_track_uuid (traces example_foreign 2) = 2"
  "next_transaction_id (traces example_foreign 2) = 1"
  "trace_file (traces example_foreign 2) =
     [\<lparr>timestamp = 0, data = Clock_snapshot [(64, 0)]\<rparr>,
      \<lparr>timestamp = 0, data = Track_descriptor 1 ''mon'' None\<rparr>]"
  by (simp_all add: example_foreign_def ex_defs)

text \<open>
  C7. The code does not do what the claim says. The run: two traces, a stream on each, a
  root transaction \<^verbatim>\<open>P\<close> and its child \<^verbatim>\<open>Q\<close> on the stream of the first trace; then
  \<^verbatim>\<open>begin_transaction("c", 30, parent=Q)\<close> on the stream of the second trace. The parent
  belongs to another stream and to another trace, and the call raises nothing: it spends a
  transaction identifier, lists the new transaction on the stream, and writes into the
  file of the second trace a track descriptor for track 2 whose parent track is 2, the
  track of \<^verbatim>\<open>Q\<close> in the first trace: a track that is its own parent. On the same stream a
  parent that is a true object of another class raises \<^verbatim>\<open>TypeError\<close> after the transaction
  identifier has been spent.
\<close>

theorem begin_transaction_foreign_parent_accepted:
  "stream_is_open (streams example_foreign 3) \<and>
   txn_stream (transactions example_foreign 5) \<noteq> 3 \<and>
   trace_of example_foreign 5 \<noteq> stream_trace (streams example_foreign 3) \<and>
   fst (begin_transaction 3 ''c'' 30 None (PyPerfettoTransaction 5) example_foreign) = Inr 6 \<and>
   next_transaction_id
     (traces (snd (begin_transaction 3 ''c'' 30 None (PyPerfettoTransaction 5) example_foreign)) 2) =
     next_transaction_id (traces example_foreign 2) + 1 \<and>
   stream_transactions
     (streams (snd (begin_transaction 3 ''c'' 30 None (PyPerfettoTransaction 5)
        example_foreign)) 3) = [6] \<and>
   trace_file
     (traces (snd (begin_transaction 3 ''c'' 30 None (PyPerfettoTransaction 5) example_foreign)) 2) =
     trace_file (traces example_foreign 2) @
       [\<lparr>timestamp = 0, data = Track_descriptor 2 ''c'' (Some 2)\<rparr>] \<and>
   fst (begin_transaction 3 ''c'' 30 None (PyOther True) example_foreign) = Inl TypeError \<and>
   next_transaction_id
     (traces (snd (begin_transaction 3 ''c'' 30 None (PyOther True) example_foreign)) 2) =
     next_transaction_id (traces example_foreign 2) + 1"
proof -
  have a: "txn_stream (transactions example_foreign 5) \<noteq> 3"
    and b: "trace_of example_foreign 5 \<noteq> stream_trace (streams example_foreign 3)"
    by (simp_all add: example_foreign_facts)
  have c: "fst (begin_transaction 3 ''c'' 30 None (PyPerfettoTransaction 5) example_foreign) =
      Inr 6"
    and d: "next_transaction_id
     (traces (snd (begin_transaction 3 ''c'' 30 None (PyPerfettoTransaction 5) example_foreign)) 2) =
     next_transaction_id (traces example_foreign 2) + 1"
    and e: "stream_transactions
     (streams (snd (begin_transaction 3 ''c'' 30 None (PyPerfettoTransaction 5)
        example_foreign)) 3) = [6]"
    and f: "trace_file
     (traces (snd (begin_transaction 3 ''c'' 30 None (PyPerfettoTransaction 5) example_foreign)) 2) =
     trace_file (traces example_foreign 2) @
       [\<lparr>timestamp = 0, data = Track_descriptor 2 ''c'' (Some 2)\<rparr>]"
    by (simp_all add: example_foreign_facts(1,2,3,5,7,8,9) begin_defs)
  have g: "fst (begin_transaction 3 ''c'' 30 None (PyOther True) example_foreign) = Inl TypeError"
    and i: "next_transaction_id
     (traces (snd (begin_transaction 3 ''c'' 30 None (PyOther True) example_foreign)) 2) =
     next_transaction_id (traces example_foreign 2) + 1"
    by (simp_all add: example_foreign_facts(1,2) begin_defs)
  from a b c d e f g i show ?thesis
    by (simp add: example_foreign_facts(1))
qed

end
